theory Spec2Isabelle
  imports Complex_Main "HOL-Library.Extended_Nat"
begin

section \<open>Trader analytics of \<open>scripts/analyze_traders.py\<close>\<close>

text \<open>
  The analyzers of \<open>analyze_traders.py\<close> are embedded as HOL functions. Python numbers
  (JSON integers and floats) are idealised as exact rationals, so \<open>/\<close> is exact division and
  \<open>round(x, n)\<close> is rounding half to even at \<open>n\<close> decimals. Every subscript \<open>t['k']\<close> of a
  trade dictionary and every \<open>/\<close> is a branch that can raise.
\<close>

subsection \<open>Errors, dictionaries, arithmetic\<close>

datatype error = KeyError string | ZeroDivisionError | IndexError | OverflowError

definition bind_res :: "error + 'a \<Rightarrow> ('a \<Rightarrow> error + 'b) \<Rightarrow> error + 'b" where
  "bind_res m f = (case m of Inl e \<Rightarrow> Inl e | Inr v \<Rightarrow> f v)"

text \<open>A loop body that may raise, run over a list to build the list of its results.\<close>

fun map_res :: "('a \<Rightarrow> error + 'b) \<Rightarrow> 'a list \<Rightarrow> error + 'b list" where
  "map_res f [] = Inr []"
| "map_res f (x # xs) = bind_res (f x) (\<lambda>y. bind_res (map_res f xs) (\<lambda>ys. Inr (y # ys)))"

text \<open>A \<open>for\<close> loop over a list whose body updates an accumulator and may raise.\<close>

fun for_loop :: "('a \<Rightarrow> 's \<Rightarrow> error + 's) \<Rightarrow> 'a list \<Rightarrow> 's \<Rightarrow> error + 's" where
  "for_loop body [] acc = Inr acc"
| "for_loop body (x # xs) acc = bind_res (body x acc) (for_loop body xs)"

text \<open>
  A trade is a JSON object: any key may be absent, so every field is optional.
  \<open>t['k']\<close> is \<open>getitem\<close>, which raises \<open>KeyError\<close> on an absent key; \<open>t.get('is_redemption')\<close>
  is \<open>is_red\<close>, where an absent key reads as \<open>None\<close>, which is falsy.
\<close>

record trade =
  user :: "string option"
  amount :: "rat option"
  outcome :: "string option"
  prob_before :: "rat option"
  prob_after :: "rat option"
  timestamp :: "rat option"
  date :: "string option"
  is_redemption :: "bool option"

fun getitem :: "string \<Rightarrow> 'a option \<Rightarrow> error + 'a" where
  "getitem k None = Inl (KeyError k)"
| "getitem k (Some v) = Inr v"

definition is_red :: "trade \<Rightarrow> bool" where
  "is_red t = (case is_redemption t of None \<Rightarrow> False | Some b \<Rightarrow> b)"

definition py_div :: "rat \<Rightarrow> rat \<Rightarrow> error + rat" where
  "py_div a b = (if b = 0 then Inl ZeroDivisionError else Inr (a / b))"

definition py_round :: "nat \<Rightarrow> rat \<Rightarrow> rat" where
  "py_round n x =
     (let s = x * 10 ^ n;
          f = \<lfloor>s\<rfloor>;
          d = s - of_int f;
          r = (if d < 1 / 2 then f else if 1 / 2 < d then f + 1
               else if even f then f else f + 1)
      in of_int r / 10 ^ n)"

text \<open>
  A \<open>defaultdict\<close> keeps its keys in the order of their first insertion, and the result loops
  iterate in that order: it is an association list. \<open>dict_upd d k f\<close> is an in-place update
  \<open>dd[k][...] = ...\<close>: an absent key is first inserted, at the end, with the default \<open>d\<close>.
  \<open>dict_get d kvs k\<close> reads the entry of \<open>k\<close>, the default when there is none.
\<close>

fun dict_upd :: "'v \<Rightarrow> 'k \<Rightarrow> ('v \<Rightarrow> 'v) \<Rightarrow> ('k \<times> 'v) list \<Rightarrow> ('k \<times> 'v) list" where
  "dict_upd d k f [] = [(k, f d)]"
| "dict_upd d k f ((k', v) # kvs) =
     (if k = k' then (k', f v) # kvs else (k', v) # dict_upd d k f kvs)"

fun dict_get :: "'v \<Rightarrow> ('k \<times> 'v) list \<Rightarrow> 'k \<Rightarrow> 'v" where
  "dict_get d [] k = d"
| "dict_get d ((k', v) # kvs) k = (if k = k' then v else dict_get d kvs k)"

subsection \<open>\<open>estimate_pnl\<close>\<close>

record position =
  yes_shares :: rat
  no_shares :: rat
  yes_cost :: rat
  no_cost :: rat
  trades :: "trade list"

definition default_position :: position where
  "default_position =
     \<lparr>yes_shares = 0, no_shares = 0, yes_cost = 0, no_cost = 0, trades = []\<rparr>"

text \<open>The body of the loop over the trades (lines 45 to 64).\<close>

definition pnl_step :: "trade \<Rightarrow> (string \<times> position) list \<Rightarrow> error + (string \<times> position) list" where
  "pnl_step t tp =
     (if is_red t then Inr tp
      else
        bind_res (getitem ''user'' (user t)) (\<lambda>u.
        bind_res (getitem ''amount'' (amount t)) (\<lambda>a.
        bind_res (getitem ''prob_before'' (prob_before t)) (\<lambda>pb.
        bind_res (py_div pb 100) (\<lambda>prob.
        bind_res (getitem ''outcome'' (outcome t)) (\<lambda>oc.
          if oc = ''YES'' then
            bind_res (if prob > 0 then py_div a prob else Inr 0) (\<lambda>shares.
              Inr (dict_upd default_position u
                (\<lambda>p. p\<lparr>yes_shares := yes_shares p + shares,
                        yes_cost := yes_cost p + a,
                        trades := trades p @ [t]\<rparr>) tp))
          else
            bind_res (if prob < 1 then py_div a (1 - prob) else Inr 0) (\<lambda>shares.
              Inr (dict_upd default_position u
                (\<lambda>p. p\<lparr>no_shares := no_shares p + shares,
                        no_cost := no_cost p + a,
                        trades := trades p @ [t]\<rparr>) tp))))))))"

record pnl_entry =
  pnl_user :: string
  pnl_yes_cost :: rat
  pnl_no_cost :: rat
  pnl_total_cost :: rat
  pnl_yes_value :: rat
  pnl_no_value :: rat
  pnl_estimated_pnl :: rat
  pnl_roi_pct :: rat
  pnl_trade_count :: nat
  pnl_position :: string

text \<open>The body of the result loop (lines 68 to 92).\<close>

definition pnl_result :: "rat \<Rightarrow> string \<times> position \<Rightarrow> error + pnl_entry" where
  "pnl_result current_prob up =
     (let pos = snd up;
          yes_value = yes_shares pos * current_prob;
          yes_pnl = yes_value - yes_cost pos;
          no_value = no_shares pos * (1 - current_prob);
          no_pnl = no_value - no_cost pos;
          total_pnl = yes_pnl + no_pnl;
          total_cost = yes_cost pos + no_cost pos
      in bind_res (if total_cost > 0
                   then bind_res (py_div total_pnl total_cost) (\<lambda>q. Inr (q * 100))
                   else Inr 0) (\<lambda>roi.
           Inr \<lparr>pnl_user = fst up,
                pnl_yes_cost = py_round 2 (yes_cost pos),
                pnl_no_cost = py_round 2 (no_cost pos),
                pnl_total_cost = py_round 2 total_cost,
                pnl_yes_value = py_round 2 yes_value,
                pnl_no_value = py_round 2 no_value,
                pnl_estimated_pnl = py_round 2 total_pnl,
                pnl_roi_pct = py_round 1 roi,
                pnl_trade_count = length (trades pos),
                pnl_position = (if yes_cost pos > no_cost pos then ''LONG'' else ''SHORT'')\<rparr>))"

text \<open>
  \<open>sorted(results, key=..., reverse=True)\<close> is stable: entries of equal key keep their order.
  That is the stable ascending sort on the negated key.
\<close>

definition estimate_pnl :: "trade list \<Rightarrow> rat \<Rightarrow> error + pnl_entry list" where
  "estimate_pnl ts current_prob =
     bind_res (for_loop pnl_step ts []) (\<lambda>tp.
     bind_res (map_res (pnl_result current_prob) tp) (\<lambda>results.
       Inr (sort_key (\<lambda>x. - pnl_estimated_pnl x) results)))"

subsection \<open>\<open>analyze_timing\<close>\<close>

text \<open>
  The accumulator of one trader. \<open>first_trade_idx\<close> starts at \<open>float('inf')\<close>, the infinite
  element of the extended naturals.
\<close>

record timing =
  first_trade_idx :: enat
  last_trade_idx :: nat
  early_trades :: nat
  mid_trades :: nat
  late_trades :: nat
  total_n :: nat

definition default_timing :: timing where
  "default_timing =
     \<lparr>first_trade_idx = \<infinity>, last_trade_idx = 0, early_trades = 0, mid_trades = 0,
      late_trades = 0, total_n = 0\<rparr>"

text \<open>
  \<open>sorted(trades, key=lambda x: x['timestamp'])\<close>: the key is read off every trade first,
  redemptions included, then the list is sorted, stably.
\<close>

definition sorted_by_timestamp :: "trade list \<Rightarrow> error + trade list" where
  "sorted_by_timestamp ts =
     bind_res (map_res (\<lambda>t. bind_res (getitem ''timestamp'' (timestamp t)) (\<lambda>k. Inr (k, t))) ts)
       (\<lambda>kts. Inr (map snd (sort_key fst kts)))"

text \<open>The body of the loop over \<open>enumerate(sorted_trades)\<close> (lines 120 to 133).\<close>

definition timing_step ::
    "nat \<Rightarrow> nat \<Rightarrow> nat \<times> trade \<Rightarrow> (string \<times> timing) list \<Rightarrow> error + (string \<times> timing) list" where
  "timing_step q1_cutoff q3_cutoff it tt =
     (let idx = fst it; t = snd it in
      if is_red t then Inr tt
      else
        bind_res (getitem ''user'' (user t)) (\<lambda>u.
          Inr (dict_upd default_timing u
            (\<lambda>d. let d1 = d\<lparr>total_n := total_n d + 1\<rparr>;
                     d2 = d1\<lparr>first_trade_idx := min (first_trade_idx d1) (enat idx)\<rparr>;
                     d3 = d2\<lparr>last_trade_idx := max (last_trade_idx d2) idx\<rparr>
                 in if idx < q1_cutoff then d3\<lparr>early_trades := early_trades d3 + 1\<rparr>
                    else if idx < q3_cutoff then d3\<lparr>mid_trades := mid_trades d3 + 1\<rparr>
                    else d3\<lparr>late_trades := late_trades d3 + 1\<rparr>) tt)))"

text \<open>
  \<open>tm_first_trade_pct\<close> is \<open>None\<close> for the float infinity, which \<open>round\<close> returns unchanged.
\<close>

record timing_entry =
  tm_user :: string
  tm_timing_type :: string
  tm_first_trade_pct :: "rat option"
  tm_early_trades :: nat
  tm_mid_trades :: nat
  tm_late_trades :: nat

definition timing_result :: "nat \<Rightarrow> string \<times> timing \<Rightarrow> error + timing_entry" where
  "timing_result total_trades ud =
     (let data = snd ud;
          timing_type = (if early_trades data > late_trades data then ''EARLY''
                         else if late_trades data > early_trades data then ''LATE''
                         else ''SPREAD'')
      in bind_res (case first_trade_idx data of
                     enat i \<Rightarrow> bind_res (py_div (of_nat i) (of_nat total_trades))
                                 (\<lambda>q. Inr (Some (py_round 1 (q * 100))))
                   | \<infinity> \<Rightarrow> if total_trades = 0 then Inl ZeroDivisionError else Inr None) (\<lambda>pct.
           Inr \<lparr>tm_user = fst ud,
                tm_timing_type = timing_type,
                tm_first_trade_pct = pct,
                tm_early_trades = early_trades data,
                tm_mid_trades = mid_trades data,
                tm_late_trades = late_trades data\<rparr>))"

text \<open>
  An empty collection returns the empty dictionary \<open>{}\<close>, any other one a list. The source
  also binds \<open>q2_cutoff = total_trades // 2\<close>, which it never reads.
\<close>

datatype timing_out = EmptyDict | Entries "timing_entry list"

definition analyze_timing :: "trade list \<Rightarrow> error + timing_out" where
  "analyze_timing ts =
     (if ts = [] then Inr EmptyDict
      else
        bind_res (sorted_by_timestamp ts) (\<lambda>sorted_trades.
          let total_trades = length sorted_trades;
              q1_cutoff = total_trades div 4;
              q3_cutoff = (total_trades * 3) div 4
          in bind_res (for_loop (timing_step q1_cutoff q3_cutoff) (List.enumerate 0 sorted_trades) []) (\<lambda>tt.
             bind_res (map_res (timing_result total_trades) tt) (\<lambda>results.
               Inr (Entries results)))))"

subsection \<open>\<open>analyze_position_changes\<close>\<close>

record hist =
  h_outcome :: string
  h_amount :: rat
  h_date :: string
  h_prob :: rat

text \<open>
  The body of the first loop (lines 156 to 164). The subscript \<open>trader_history[t['user']]\<close>
  is evaluated before the dictionary display that is appended.
\<close>

definition history_step :: "trade \<Rightarrow> (string \<times> hist list) list \<Rightarrow> error + (string \<times> hist list) list" where
  "history_step t th =
     (if is_red t then Inr th
      else
        bind_res (getitem ''user'' (user t)) (\<lambda>u.
        bind_res (getitem ''outcome'' (outcome t)) (\<lambda>oc.
        bind_res (getitem ''amount'' (amount t)) (\<lambda>a.
        bind_res (getitem ''date'' (date t)) (\<lambda>dt.
        bind_res (getitem ''prob_before'' (prob_before t)) (\<lambda>pb.
          Inr (dict_upd [] u
            (\<lambda>h. h @ [\<lparr>h_outcome = oc, h_amount = a, h_date = dt, h_prob = pb\<rparr>]) th)))))))"

text \<open>The loop over \<open>history[1:]\<close> (lines 174 to 177), on the pair \<open>(flips, last_direction)\<close>.\<close>

fun flip_loop :: "hist list \<Rightarrow> nat \<times> string \<Rightarrow> nat \<times> string" where
  "flip_loop [] fl = fl"
| "flip_loop (tr # rest) fl =
     (if h_outcome tr \<noteq> snd fl then flip_loop rest (fst fl + 1, h_outcome tr)
      else flip_loop rest fl)"

record pc_entry =
  pc_user :: string
  pc_trade_count :: nat
  pc_flips :: nat
  pc_is_flipper :: bool
  pc_avg_yes_entry_prob :: rat
  pc_avg_no_entry_prob :: rat
  pc_first_position :: string
  pc_final_position :: string

text \<open>
  The body of the result loop (lines 167 to 202); \<open>None\<close> is the \<open>continue\<close> that skips a
  trader.
\<close>

definition position_result :: "string \<times> hist list \<Rightarrow> error + pc_entry option" where
  "position_result uh =
     (let history = snd uh in
      if length history < 2 then Inr None
      else
        case history of
          [] \<Rightarrow> Inl IndexError
        | h0 # rest \<Rightarrow>
            let flips = fst (flip_loop rest (0, h_outcome h0));
                yes_volume = sum_list (map h_amount (filter (\<lambda>t. h_outcome t = ''YES'') history));
                no_volume = sum_list (map h_amount (filter (\<lambda>t. h_outcome t = ''NO'') history))
            in bind_res (if yes_volume > 0
                         then py_div (sum_list (map (\<lambda>t. h_prob t * h_amount t)
                                        (filter (\<lambda>t. h_outcome t = ''YES'') history))) yes_volume
                         else Inr 0) (\<lambda>avg_yes_entry.
               bind_res (if no_volume > 0
                         then py_div (sum_list (map (\<lambda>t. h_prob t * h_amount t)
                                        (filter (\<lambda>t. h_outcome t = ''NO'') history))) no_volume
                         else Inr 0) (\<lambda>avg_no_entry.
                 Inr (Some \<lparr>pc_user = fst uh,
                            pc_trade_count = length history,
                            pc_flips = flips,
                            pc_is_flipper = (flips \<ge> 2),
                            pc_avg_yes_entry_prob = py_round 1 avg_yes_entry,
                            pc_avg_no_entry_prob = py_round 1 avg_no_entry,
                            pc_first_position = h_outcome h0,
                            pc_final_position = h_outcome (last history)\<rparr>))))"

definition analyze_position_changes :: "trade list \<Rightarrow> error + pc_entry list" where
  "analyze_position_changes ts =
     bind_res (sorted_by_timestamp ts) (\<lambda>sorted_trades.
     bind_res (for_loop history_step sorted_trades []) (\<lambda>th.
     bind_res (map_res position_result th) (\<lambda>rs.
       Inr (sort_key (\<lambda>x. - int (pc_flips x)) (List.map_filter id rs)))))"

subsection \<open>\<open>analyze_market_impact\<close>\<close>

record impact =
  total_price_impact :: rat
  impact_trades :: nat
  biggest_move :: rat

definition default_impact :: impact where
  "default_impact = \<lparr>total_price_impact = 0, impact_trades = 0, biggest_move = 0\<rparr>"

text \<open>The body of the loop over the trades (lines 215 to 224).\<close>

definition impact_step :: "trade \<Rightarrow> (string \<times> impact) list \<Rightarrow> error + (string \<times> impact) list" where
  "impact_step t ti =
     (if is_red t then Inr ti
      else
        bind_res (getitem ''prob_after'' (prob_after t)) (\<lambda>pa.
        bind_res (getitem ''prob_before'' (prob_before t)) (\<lambda>pb.
          let imp = \<bar>pa - pb\<bar> in
          bind_res (getitem ''user'' (user t)) (\<lambda>u.
            Inr (dict_upd default_impact u
              (\<lambda>d. d\<lparr>total_price_impact := total_price_impact d + imp,
                      impact_trades := impact_trades d + 1,
                      biggest_move := max (biggest_move d) imp\<rparr>) ti)))))"

record mi_entry =
  mi_user :: string
  mi_total_impact_pct :: rat
  mi_avg_impact_pct :: rat
  mi_biggest_move_pct :: rat
  mi_trade_count :: nat

definition impact_result :: "string \<times> impact \<Rightarrow> error + mi_entry" where
  "impact_result ud =
     (let data = snd ud in
      bind_res (if impact_trades data > 0
                then py_div (total_price_impact data) (of_nat (impact_trades data))
                else Inr 0) (\<lambda>avg_impact.
        Inr \<lparr>mi_user = fst ud,
             mi_total_impact_pct = py_round 2 (total_price_impact data),
             mi_avg_impact_pct = py_round 2 avg_impact,
             mi_biggest_move_pct = py_round 2 (biggest_move data),
             mi_trade_count = impact_trades data\<rparr>))"

definition analyze_market_impact :: "trade list \<Rightarrow> error + mi_entry list" where
  "analyze_market_impact ts =
     bind_res (for_loop impact_step ts []) (\<lambda>ti.
     bind_res (map_res impact_result ti) (\<lambda>results.
       Inr (sort_key (\<lambda>x. - mi_total_impact_pct x) results)))"

subsection \<open>\<open>classify_traders\<close>\<close>

record stats =
  volume :: rat
  st_trades :: nat
  yes_pct :: rat

definition default_stats :: stats where
  "default_stats = \<lparr>volume = 0, st_trades = 0, yes_pct = 0\<rparr>"

text \<open>
  \<open>{p['user']: p for p in pnl_data}\<close>: of two entries of one user the later one stays.
\<close>

definition pnl_lookup :: "pnl_entry list \<Rightarrow> string \<Rightarrow> pnl_entry option" where
  "pnl_lookup pnl_data = map_of (rev (map (\<lambda>p. (pnl_user p, p)) pnl_data))"

definition stats_step :: "trade \<Rightarrow> (string \<times> stats) list \<Rightarrow> error + (string \<times> stats) list" where
  "stats_step t ts =
     (if is_red t then Inr ts
      else
        bind_res (getitem ''user'' (user t)) (\<lambda>u.
        bind_res (getitem ''amount'' (amount t)) (\<lambda>a.
          Inr (dict_upd default_stats u
            (\<lambda>s. s\<lparr>volume := volume s + a, st_trades := st_trades s + 1\<rparr>) ts))))"

text \<open>The body of the loop that fills in \<open>yes_pct\<close> (lines 259 to 263).\<close>

definition yes_pct_step :: "(string \<Rightarrow> pnl_entry option) \<Rightarrow> string \<times> stats \<Rightarrow> error + string \<times> stats" where
  "yes_pct_step lookup us =
     (let pnl = lookup (fst us);
          yes_cost' = (case pnl of None \<Rightarrow> 0 | Some p \<Rightarrow> pnl_yes_cost p);
          total = (case pnl of None \<Rightarrow> 1 | Some p \<Rightarrow> pnl_total_cost p)
      in bind_res (if total > 0
                   then bind_res (py_div yes_cost' total) (\<lambda>q. Inr (q * 100))
                   else Inr 50) (\<lambda>y.
           Inr (fst us, (snd us)\<lparr>yes_pct := y\<rparr>)))"

definition list_index :: "'a list \<Rightarrow> nat \<Rightarrow> error + 'a" where
  "list_index xs i = (if i < length xs then Inr (xs ! i) else Inl IndexError)"

definition whale_threshold :: "rat list \<Rightarrow> error + rat" where
  "whale_threshold volumes =
     (if volumes \<noteq> [] then list_index (rev (sort volumes)) (min 10 (length volumes - 1))
      else Inr 0)"

text \<open>The label rules of one trader (lines 274 to 289).\<close>

definition classify_types :: "rat \<Rightarrow> rat \<Rightarrow> nat \<Rightarrow> rat \<Rightarrow> rat \<Rightarrow> string list" where
  "classify_types vol threshold n ypct roi =
     (let t1 = (if vol \<ge> threshold then [''WHALE''] else []);
          t2 = t1 @ (if n \<ge> 20 then [''ACTIVE''] else []);
          t3 = t2 @ (if ypct \<ge> 80 then [''BULL''] else if ypct \<le> 20 then [''BEAR''] else []);
          t4 = t3 @ (if roi > 50 then [''WINNER''] else if roi < - 30 then [''LOSER''] else [])
      in if t4 = [] then [''RETAIL''] else t4)"

record cls_entry =
  cls_user :: string
  cls_types :: "string list"
  cls_volume :: rat
  cls_trades :: nat
  cls_yes_pct :: rat
  cls_estimated_pnl :: rat
  cls_roi_pct :: rat

definition classify_result :: "(string \<Rightarrow> pnl_entry option) \<Rightarrow> rat \<Rightarrow> string \<times> stats \<Rightarrow> cls_entry" where
  "classify_result lookup threshold us =
     (let pnl = lookup (fst us);
          st = snd us;
          roi = (case pnl of None \<Rightarrow> 0 | Some p \<Rightarrow> pnl_roi_pct p)
      in \<lparr>cls_user = fst us,
          cls_types = classify_types (volume st) threshold (st_trades st) (yes_pct st) roi,
          cls_volume = py_round 2 (volume st),
          cls_trades = st_trades st,
          cls_yes_pct = py_round 1 (yes_pct st),
          cls_estimated_pnl = (case pnl of None \<Rightarrow> 0 | Some p \<Rightarrow> pnl_estimated_pnl p),
          cls_roi_pct = roi\<rparr>)"

definition classify_traders :: "trade list \<Rightarrow> pnl_entry list \<Rightarrow> error + cls_entry list" where
  "classify_traders ts pnl_data =
     bind_res (for_loop stats_step ts []) (\<lambda>st0.
     bind_res (map_res (yes_pct_step (pnl_lookup pnl_data)) st0) (\<lambda>trader_stats.
     bind_res (whale_threshold (map (\<lambda>us. volume (snd us)) trader_stats)) (\<lambda>threshold.
       Inr (sort_key (\<lambda>x. - cls_volume x)
              (map (classify_result (pnl_lookup pnl_data) threshold) trader_stats)))))"

subsection \<open>Well-formed trade records\<close>

text \<open>A trade with every key present, as the normalizer produces them.\<close>

definition mk_trade :: "string \<Rightarrow> rat \<Rightarrow> string \<Rightarrow> rat \<Rightarrow> rat \<Rightarrow> rat \<Rightarrow> bool \<Rightarrow> trade" where
  "mk_trade u a oc pb pa tstamp red =
     \<lparr>user = Some u, amount = Some a, outcome = Some oc, prob_before = Some pb,
      prob_after = Some pa, timestamp = Some tstamp, date = Some ''2024-01-01'',
      is_redemption = Some red\<rparr>"

subsection \<open>Traders and per-trader updates\<close>

text \<open>
  The traders of a collection are the users of its non-redemption trades; \<open>user_trades\<close> are
  the non-redemption trades of one of them, in the order of the collection.
\<close>

definition trader_ids :: "trade list \<Rightarrow> string list" where
  "trader_ids ts = remdups (List.map_filter user (filter (\<lambda>t. \<not> is_red t) ts))"

definition user_trades :: "string \<Rightarrow> trade list \<Rightarrow> trade list" where
  "user_trades u ts = filter (\<lambda>t. \<not> is_red t \<and> user t = Some u) ts"

text \<open>
  A loop body is a per-trader update when it skips a redemption and otherwise applies an
  update, determined by the element alone, to the entry of the element's user. The updates
  of the five loops follow; they read the keys of a well-formed record.
\<close>

definition fold_step ::
    "'v \<Rightarrow> ('a \<Rightarrow> trade) \<Rightarrow> ('a \<Rightarrow> 'v \<Rightarrow> 'v) \<Rightarrow> ('a \<Rightarrow> (string \<times> 'v) list \<Rightarrow> error + (string \<times> 'v) list) \<Rightarrow> bool" where
  "fold_step d tr g body \<longleftrightarrow>
     (\<forall>x acc acc'. body x acc = Inr acc' \<longrightarrow>
        (if is_red (tr x) then acc' = acc
         else \<exists>u. user (tr x) = Some u \<and> acc' = dict_upd d u (g x) acc))"

definition norm_prob :: "trade \<Rightarrow> rat" where
  "norm_prob t = the (prob_before t) / 100"

definition trade_shares :: "trade \<Rightarrow> rat" where
  "trade_shares t =
     (if outcome t = Some ''YES''
      then (if norm_prob t > 0 then the (amount t) / norm_prob t else 0)
      else (if norm_prob t < 1 then the (amount t) / (1 - norm_prob t) else 0))"

definition pnl_update :: "trade \<Rightarrow> position \<Rightarrow> position" where
  "pnl_update t p =
     (if outcome t = Some ''YES''
      then p\<lparr>yes_shares := yes_shares p + trade_shares t,
             yes_cost := yes_cost p + the (amount t),
             trades := trades p @ [t]\<rparr>
      else p\<lparr>no_shares := no_shares p + trade_shares t,
             no_cost := no_cost p + the (amount t),
             trades := trades p @ [t]\<rparr>)"

definition timing_update :: "nat \<Rightarrow> nat \<Rightarrow> nat \<times> trade \<Rightarrow> timing \<Rightarrow> timing" where
  "timing_update q1 q3 it d =
     d\<lparr>total_n := total_n d + 1,
       first_trade_idx := min (first_trade_idx d) (enat (fst it)),
       last_trade_idx := max (last_trade_idx d) (fst it),
       early_trades := early_trades d + (if fst it < q1 then 1 else 0),
       mid_trades := mid_trades d + (if q1 \<le> fst it \<and> fst it < q3 then 1 else 0),
       late_trades := late_trades d + (if q1 \<le> fst it \<and> q3 \<le> fst it then 1 else 0)\<rparr>"

definition hist_of :: "trade \<Rightarrow> hist" where
  "hist_of t = \<lparr>h_outcome = the (outcome t), h_amount = the (amount t), h_date = the (date t),
               h_prob = the (prob_before t)\<rparr>"



text \<open>A market of two traders, and its P&L records at the reference probability one half.\<close>

definition two_traders :: "trade list" where
  "two_traders = [mk_trade ''ann'' 100 ''YES'' 25 30 1 False, mk_trade ''bob'' 10 ''NO'' 30 28 2 False]"

definition two_traders_pnl :: "pnl_entry list" where
  "two_traders_pnl =
     [\<lparr>pnl_user = ''ann'', pnl_yes_cost = 100, pnl_no_cost = 0, pnl_total_cost = 100,
       pnl_yes_value = 200, pnl_no_value = 0, pnl_estimated_pnl = 100, pnl_roi_pct = 100,
       pnl_trade_count = 1, pnl_position = ''LONG''\<rparr>,
      \<lparr>pnl_user = ''bob'', pnl_yes_cost = 0, pnl_no_cost = 10, pnl_total_cost = 10,
       pnl_yes_value = 0, pnl_no_value = 357 / 50, pnl_estimated_pnl = - (143 / 50),
       pnl_roi_pct = - (143 / 5), pnl_trade_count = 1, pnl_position = ''SHORT''\<rparr>]"

definition two_traders_classes :: "cls_entry list" where
  "two_traders_classes =
     [\<lparr>cls_user = ''ann'', cls_types = [''WHALE'', ''BULL'', ''WINNER''], cls_volume = 100,
       cls_trades = 1, cls_yes_pct = 100, cls_estimated_pnl = 100, cls_roi_pct = 100\<rparr>,
      \<lparr>cls_user = ''bob'', cls_types = [''WHALE'', ''BEAR''], cls_volume = 10, cls_trades = 1,
       cls_yes_pct = 0, cls_estimated_pnl = - (143 / 50), cls_roi_pct = - (143 / 5)\<rparr>]"

text \<open>
  The trades of a trader on the YES side and on the other (NO) side, in the order of the
  collection.
\<close>

definition yes_trades :: "string \<Rightarrow> trade list \<Rightarrow> trade list" where
  "yes_trades u ts = filter (\<lambda>t. outcome t = Some ''YES'') (user_trades u ts)"

definition no_trades :: "string \<Rightarrow> trade list \<Rightarrow> trade list" where
  "no_trades u ts = filter (\<lambda>t. outcome t \<noteq> Some ''YES'') (user_trades u ts)"

text \<open>The four accumulated quantities of one position are each at most those of another.\<close>

definition position_le :: "position \<Rightarrow> position \<Rightarrow> bool" where
  "position_le p q \<longleftrightarrow>
     yes_shares p \<le> yes_shares q \<and> no_shares p \<le> no_shares q \<and>
     yes_cost p \<le> yes_cost q \<and> no_cost p \<le> no_cost q"

text \<open>A trade whose amount, when it has one, is not negative.\<close>

definition amount_nonneg :: "trade \<Rightarrow> bool" where
  "amount_nonneg t = (case amount t of None \<Rightarrow> True | Some a \<Rightarrow> 0 \<le> a)"

text \<open>A market whose only trade spends nothing, and its P&L records.\<close>

definition zero_cost_market :: "trade list" where
  "zero_cost_market = [mk_trade ''ann'' 0 ''YES'' 25 30 1 False]"

definition zero_cost_pnl :: "pnl_entry list" where
  "zero_cost_pnl =
     [\<lparr>pnl_user = ''ann'', pnl_yes_cost = 0, pnl_no_cost = 0, pnl_total_cost = 0,
       pnl_yes_value = 0, pnl_no_value = 0, pnl_estimated_pnl = 0, pnl_roi_pct = 0,
       pnl_trade_count = 1, pnl_position = ''SHORT''\<rparr>]"

text \<open>
  The records an analyzer can digest: a redemption is skipped whatever it lacks, any other
  record must hold the keys the analyzer subscripts.
\<close>

definition pnl_ok :: "trade \<Rightarrow> bool" where
  "pnl_ok t \<longleftrightarrow>
     is_red t \<or> (user t \<noteq> None \<and> amount t \<noteq> None \<and> prob_before t \<noteq> None \<and> outcome t \<noteq> None)"

definition timing_ok :: "trade \<Rightarrow> bool" where
  "timing_ok t \<longleftrightarrow> timestamp t \<noteq> None \<and> (is_red t \<or> user t \<noteq> None)"

definition history_ok :: "trade \<Rightarrow> bool" where
  "history_ok t \<longleftrightarrow>
     timestamp t \<noteq> None \<and>
     (is_red t \<or> (user t \<noteq> None \<and> outcome t \<noteq> None \<and> amount t \<noteq> None \<and> date t \<noteq> None \<and>
                   prob_before t \<noteq> None))"

definition impact_ok :: "trade \<Rightarrow> bool" where
  "impact_ok t \<longleftrightarrow> is_red t \<or> (prob_after t \<noteq> None \<and> prob_before t \<noteq> None \<and> user t \<noteq> None)"

definition stats_ok :: "trade \<Rightarrow> bool" where
  "stats_ok t \<longleftrightarrow> is_red t \<or> (user t \<noteq> None \<and> amount t \<noteq> None)"

text \<open>
  A market whose first record has no \<open>outcome\<close>, one whose first record has no \<open>user\<close>, and a
  redemption record that holds nothing but its flag.
\<close>

definition missing_outcome_market :: "trade list" where
  "missing_outcome_market =
     [(mk_trade ''ann'' 100 ''YES'' 25 30 1 False)\<lparr>outcome := None\<rparr>,
      mk_trade ''bob'' 10 ''NO'' 30 28 2 False]"

definition missing_user_market :: "trade list" where
  "missing_user_market =
     [(mk_trade ''ann'' 100 ''YES'' 25 30 1 False)\<lparr>user := None\<rparr>,
      mk_trade ''bob'' 10 ''NO'' 30 28 2 False]"

definition bare_redemption :: trade where
  "bare_redemption =
     \<lparr>user = None, amount = None, outcome = None, prob_before = None, prob_after = None,
      timestamp = None, date = None, is_redemption = Some True\<rparr>"

text \<open>Two trades of one trader, with probabilities on the scale of the input, 0 to 100.\<close>

definition impact_market :: "trade list" where
  "impact_market =
     [mk_trade ''ann'' 10 ''YES'' 40 45 1 False, mk_trade ''ann'' 10 ''NO'' 45 30 2 False]"

text \<open>
  The number of non-redemption trades of a trader whose rank index in the sorted sequence
  satisfies a condition, and two markets of 12 trades.
\<close>

definition rank_count :: "(nat \<Rightarrow> bool) \<Rightarrow> string \<Rightarrow> trade list \<Rightarrow> nat" where
  "rank_count P u s =
     length (filter (\<lambda>it. \<not> is_red (snd it) \<and> user (snd it) = Some u \<and> P (fst it))
               (List.enumerate 0 s))"

definition quartile_market :: "trade list" where
  "quartile_market =
     map (\<lambda>i. mk_trade (if i < 3 then ''ann'' else if i < 9 then ''mid'' else ''bob'')
                 1 ''YES'' 50 50 (of_nat i) False) [0..<12]"

definition spread_market :: "trade list" where
  "spread_market =
     map (\<lambda>i. mk_trade (if i = 0 \<or> i = 11 then ''cat'' else ''mid'')
                 1 ''YES'' 50 50 (of_nat i) False) [0..<12]"

text \<open>A market that opens with a redemption, followed by four trades.\<close>

definition redemption_market :: "trade list" where
  "redemption_market =
     [mk_trade ''red'' 1 ''YES'' 50 50 0 True,
      mk_trade ''ann'' 1 ''YES'' 50 50 1 False,
      mk_trade ''bob'' 1 ''YES'' 50 50 2 False,
      mk_trade ''bob'' 1 ''YES'' 50 50 3 False,
      mk_trade ''bob'' 1 ''YES'' 50 50 4 False]"

text \<open>
  The direction changes of a sequence of outcomes: the adjacent pairs that differ. The
  outcomes of a trader are those of the trader's non-redemption trades in the order of the
  timestamps. A market of three traders: one alternates, one stays, one trades once.
\<close>

fun changes :: "string list \<Rightarrow> nat" where
  "changes (a # b # xs) = (if a \<noteq> b then 1 else 0) + changes (b # xs)"
| "changes xs = 0"

definition trader_outcomes :: "string \<Rightarrow> trade list \<Rightarrow> string list" where
  "trader_outcomes u ts =
     map (\<lambda>t. the (outcome t)) (user_trades u (sort_key (\<lambda>t. the (timestamp t)) ts))"

definition flip_market :: "trade list" where
  "flip_market =
     [mk_trade ''ann'' 1 ''YES'' 50 50 0 False, mk_trade ''bob'' 1 ''YES'' 50 50 1 False,
      mk_trade ''ann'' 1 ''NO'' 50 50 2 False, mk_trade ''bob'' 1 ''YES'' 50 50 3 False,
      mk_trade ''cat'' 1 ''NO'' 50 50 4 False, mk_trade ''ann'' 1 ''YES'' 50 50 5 False,
      mk_trade ''bob'' 1 ''YES'' 50 50 6 False, mk_trade ''ann'' 1 ''NO'' 50 50 7 False]"

subsection \<open>The arithmetic of the interpreter\<close>

text \<open>
  A Python number is an int of any size or an IEEE double; an operation between two of them
  rounds its result and can raise (an int too large for a double raises \<open>OverflowError\<close>, a
  zero divisor \<open>ZeroDivisionError\<close>). The definitions above idealise all of this as exact
  rational arithmetic. Where a claim states computed values for every input, the analyzer is
  given a second time with the arithmetic left open: \<open>'n\<close> is the type of the numbers,
  \<open>ar_num\<close> reads a number of the input or a literal of the source, and \<open>+\<close>, \<open>-\<close>, \<open>*\<close>,
  \<open>/\<close>, \<open><\<close>, \<open>abs\<close> and \<open>round\<close> are those of the record. Exact arithmetic is one
  instance.
\<close>

record 'n arith =
  ar_num :: "rat \<Rightarrow> 'n"
  ar_add :: "'n \<Rightarrow> 'n \<Rightarrow> error + 'n"
  ar_sub :: "'n \<Rightarrow> 'n \<Rightarrow> error + 'n"
  ar_mul :: "'n \<Rightarrow> 'n \<Rightarrow> error + 'n"
  ar_div :: "'n \<Rightarrow> 'n \<Rightarrow> error + 'n"
  ar_less :: "'n \<Rightarrow> 'n \<Rightarrow> bool"
  ar_abs :: "'n \<Rightarrow> 'n"
  ar_round :: "nat \<Rightarrow> 'n \<Rightarrow> 'n"

definition exact_arith :: "rat arith" where
  "exact_arith =
     \<lparr>ar_num = (\<lambda>x. x), ar_add = (\<lambda>x y. Inr (x + y)), ar_sub = (\<lambda>x y. Inr (x - y)),
      ar_mul = (\<lambda>x y. Inr (x * y)), ar_div = py_div, ar_less = (\<lambda>x y. x < y),
      ar_abs = (\<lambda>x. \<bar>x\<bar>), ar_round = py_round\<rparr>"

text \<open>
  \<open>sorted(results, key=..., reverse=True)\<close> by insertion with the comparison of the record:
  the stable descending sort wherever the comparison orders the keys.
\<close>

fun insort_desc :: "('n \<Rightarrow> 'n \<Rightarrow> bool) \<Rightarrow> ('a \<Rightarrow> 'n) \<Rightarrow> 'a \<Rightarrow> 'a list \<Rightarrow> 'a list" where
  "insort_desc lt key x [] = [x]"
| "insort_desc lt key x (y # ys) =
     (if lt (key x) (key y) then y # insort_desc lt key x ys else x # y # ys)"

definition sort_desc :: "('n \<Rightarrow> 'n \<Rightarrow> bool) \<Rightarrow> ('a \<Rightarrow> 'n) \<Rightarrow> 'a list \<Rightarrow> 'a list" where
  "sort_desc lt key xs = foldr (insort_desc lt key) xs []"

text \<open>\<open>estimate_pnl\<close> with the arithmetic of the record (lines 28 to 94).\<close>

record 'n position_fl =
  yes_shares_fl :: 'n
  no_shares_fl :: 'n
  yes_cost_fl :: 'n
  no_cost_fl :: 'n
  trades_fl :: "trade list"

definition default_position_fl :: "'n arith \<Rightarrow> 'n position_fl" where
  "default_position_fl ar =
     \<lparr>yes_shares_fl = ar_num ar 0, no_shares_fl = ar_num ar 0, yes_cost_fl = ar_num ar 0,
      no_cost_fl = ar_num ar 0, trades_fl = []\<rparr>"

definition pnl_step_fl ::
    "'n arith \<Rightarrow> trade \<Rightarrow> (string \<times> 'n position_fl) list \<Rightarrow> error + (string \<times> 'n position_fl) list" where
  "pnl_step_fl ar t tp =
     (if is_red t then Inr tp
      else
        bind_res (getitem ''user'' (user t)) (\<lambda>u.
        bind_res (getitem ''amount'' (amount t)) (\<lambda>a.
        bind_res (getitem ''prob_before'' (prob_before t)) (\<lambda>pb.
        bind_res (ar_div ar (ar_num ar pb) (ar_num ar 100)) (\<lambda>prob.
        bind_res (getitem ''outcome'' (outcome t)) (\<lambda>oc.
          let p = dict_get (default_position_fl ar) tp u in
          if oc = ''YES'' then
            bind_res (if ar_less ar (ar_num ar 0) prob then ar_div ar (ar_num ar a) prob
                      else Inr (ar_num ar 0)) (\<lambda>shares.
            bind_res (ar_add ar (yes_shares_fl p) shares) (\<lambda>ys.
            bind_res (ar_add ar (yes_cost_fl p) (ar_num ar a)) (\<lambda>yc.
              Inr (dict_upd (default_position_fl ar) u
                (\<lambda>_. p\<lparr>yes_shares_fl := ys, yes_cost_fl := yc,
                        trades_fl := trades_fl p @ [t]\<rparr>) tp))))
          else
            bind_res (if ar_less ar prob (ar_num ar 1)
                      then bind_res (ar_sub ar (ar_num ar 1) prob) (\<lambda>q. ar_div ar (ar_num ar a) q)
                      else Inr (ar_num ar 0)) (\<lambda>shares.
            bind_res (ar_add ar (no_shares_fl p) shares) (\<lambda>ns.
            bind_res (ar_add ar (no_cost_fl p) (ar_num ar a)) (\<lambda>nc.
              Inr (dict_upd (default_position_fl ar) u
                (\<lambda>_. p\<lparr>no_shares_fl := ns, no_cost_fl := nc,
                        trades_fl := trades_fl p @ [t]\<rparr>) tp))))))))))"

record 'n pnl_entry_fl =
  pnl_user_fl :: string
  pnl_yes_cost_fl :: 'n
  pnl_no_cost_fl :: 'n
  pnl_total_cost_fl :: 'n
  pnl_yes_value_fl :: 'n
  pnl_no_value_fl :: 'n
  pnl_estimated_pnl_fl :: 'n
  pnl_roi_pct_fl :: 'n
  pnl_trade_count_fl :: nat
  pnl_position_fl :: string

definition pnl_result_fl :: "'n arith \<Rightarrow> 'n \<Rightarrow> string \<times> 'n position_fl \<Rightarrow> error + 'n pnl_entry_fl" where
  "pnl_result_fl ar current_prob up =
     (let pos = snd up in
      bind_res (ar_mul ar (yes_shares_fl pos) current_prob) (\<lambda>yes_value.
      bind_res (ar_sub ar yes_value (yes_cost_fl pos)) (\<lambda>yes_pnl.
      bind_res (ar_sub ar (ar_num ar 1) current_prob) (\<lambda>q.
      bind_res (ar_mul ar (no_shares_fl pos) q) (\<lambda>no_value.
      bind_res (ar_sub ar no_value (no_cost_fl pos)) (\<lambda>no_pnl.
      bind_res (ar_add ar yes_pnl no_pnl) (\<lambda>total_pnl.
      bind_res (ar_add ar (yes_cost_fl pos) (no_cost_fl pos)) (\<lambda>total_cost.
      bind_res (if ar_less ar (ar_num ar 0) total_cost
                then bind_res (ar_div ar total_pnl total_cost) (\<lambda>r. ar_mul ar r (ar_num ar 100))
                else Inr (ar_num ar 0)) (\<lambda>roi.
        Inr \<lparr>pnl_user_fl = fst up,
             pnl_yes_cost_fl = ar_round ar 2 (yes_cost_fl pos),
             pnl_no_cost_fl = ar_round ar 2 (no_cost_fl pos),
             pnl_total_cost_fl = ar_round ar 2 total_cost,
             pnl_yes_value_fl = ar_round ar 2 yes_value,
             pnl_no_value_fl = ar_round ar 2 no_value,
             pnl_estimated_pnl_fl = ar_round ar 2 total_pnl,
             pnl_roi_pct_fl = ar_round ar 1 roi,
             pnl_trade_count_fl = length (trades_fl pos),
             pnl_position_fl =
               (if ar_less ar (no_cost_fl pos) (yes_cost_fl pos) then ''LONG''
                else ''SHORT'')\<rparr>)))))))))"

definition estimate_pnl_fl :: "'n arith \<Rightarrow> trade list \<Rightarrow> 'n \<Rightarrow> error + 'n pnl_entry_fl list" where
  "estimate_pnl_fl ar ts current_prob =
     bind_res (for_loop (pnl_step_fl ar) ts []) (\<lambda>tp.
     bind_res (map_res (pnl_result_fl ar current_prob) tp) (\<lambda>results.
       Inr (sort_desc (ar_less ar) pnl_estimated_pnl_fl results)))"

text \<open>\<open>analyze_market_impact\<close> with the arithmetic of the record (lines 207 to 237).\<close>

record 'n impact_fl =
  total_price_impact_fl :: 'n
  impact_trades_fl :: nat
  biggest_move_fl :: 'n

definition default_impact_fl :: "'n arith \<Rightarrow> 'n impact_fl" where
  "default_impact_fl ar =
     \<lparr>total_price_impact_fl = ar_num ar 0, impact_trades_fl = 0, biggest_move_fl = ar_num ar 0\<rparr>"

definition impact_step_fl ::
    "'n arith \<Rightarrow> trade \<Rightarrow> (string \<times> 'n impact_fl) list \<Rightarrow> error + (string \<times> 'n impact_fl) list" where
  "impact_step_fl ar t ti =
     (if is_red t then Inr ti
      else
        bind_res (getitem ''prob_after'' (prob_after t)) (\<lambda>pa.
        bind_res (getitem ''prob_before'' (prob_before t)) (\<lambda>pb.
        bind_res (ar_sub ar (ar_num ar pa) (ar_num ar pb)) (\<lambda>diff.
          let imp = ar_abs ar diff in
          bind_res (getitem ''user'' (user t)) (\<lambda>u.
            let d = dict_get (default_impact_fl ar) ti u in
            bind_res (ar_add ar (total_price_impact_fl d) imp) (\<lambda>total.
              Inr (dict_upd (default_impact_fl ar) u
                (\<lambda>_. d\<lparr>total_price_impact_fl := total,
                        impact_trades_fl := impact_trades_fl d + 1,
                        biggest_move_fl :=
                          (if ar_less ar (biggest_move_fl d) imp then imp
                           else biggest_move_fl d)\<rparr>) ti)))))))"

record 'n mi_entry_fl =
  mi_user_fl :: string
  mi_total_impact_pct_fl :: 'n
  mi_avg_impact_pct_fl :: 'n
  mi_biggest_move_pct_fl :: 'n
  mi_trade_count_fl :: nat

definition impact_result_fl :: "'n arith \<Rightarrow> string \<times> 'n impact_fl \<Rightarrow> error + 'n mi_entry_fl" where
  "impact_result_fl ar ud =
     (let data = snd ud in
      bind_res (if impact_trades_fl data > 0
                then ar_div ar (total_price_impact_fl data)
                       (ar_num ar (of_nat (impact_trades_fl data)))
                else Inr (ar_num ar 0)) (\<lambda>avg_impact.
        Inr \<lparr>mi_user_fl = fst ud,
             mi_total_impact_pct_fl = ar_round ar 2 (total_price_impact_fl data),
             mi_avg_impact_pct_fl = ar_round ar 2 avg_impact,
             mi_biggest_move_pct_fl = ar_round ar 2 (biggest_move_fl data),
             mi_trade_count_fl = impact_trades_fl data\<rparr>))"

definition analyze_market_impact_fl :: "'n arith \<Rightarrow> trade list \<Rightarrow> error + 'n mi_entry_fl list" where
  "analyze_market_impact_fl ar ts =
     bind_res (for_loop (impact_step_fl ar) ts []) (\<lambda>ti.
     bind_res (map_res (impact_result_fl ar) ti) (\<lambda>results.
       Inr (sort_desc (ar_less ar) mi_total_impact_pct_fl results)))"

text \<open>
  The quantities of the specification in the arithmetic of the record: the shares and the
  impact of one trade, and the running total of a quantity over trades in their order, from
  the 0 the accumulators start with. A loop body is a per-trader update when, whenever it
  returns, it has left the dictionary alone at a redemption and has otherwise replaced the
  entry of the trade's user by the update of that entry, which may itself raise.
\<close>

definition trade_shares_fl :: "'n arith \<Rightarrow> trade \<Rightarrow> error + 'n" where
  "trade_shares_fl ar t =
     bind_res (ar_div ar (ar_num ar (the (prob_before t))) (ar_num ar 100)) (\<lambda>prob.
       if outcome t = Some ''YES''
       then (if ar_less ar (ar_num ar 0) prob then ar_div ar (ar_num ar (the (amount t))) prob
             else Inr (ar_num ar 0))
       else (if ar_less ar prob (ar_num ar 1)
             then bind_res (ar_sub ar (ar_num ar 1) prob)
                    (\<lambda>q. ar_div ar (ar_num ar (the (amount t))) q)
             else Inr (ar_num ar 0)))"

definition trade_cost_fl :: "'n arith \<Rightarrow> trade \<Rightarrow> error + 'n" where
  "trade_cost_fl ar t = Inr (ar_num ar (the (amount t)))"

definition trade_impact_fl :: "'n arith \<Rightarrow> trade \<Rightarrow> error + 'n" where
  "trade_impact_fl ar t =
     bind_res (ar_sub ar (ar_num ar (the (prob_after t))) (ar_num ar (the (prob_before t))))
       (\<lambda>diff. Inr (ar_abs ar diff))"

definition total_from :: "'n arith \<Rightarrow> 'n \<Rightarrow> ('a \<Rightarrow> error + 'n) \<Rightarrow> 'a list \<Rightarrow> error + 'n" where
  "total_from ar s0 f xs = for_loop (\<lambda>x s. bind_res (f x) (\<lambda>v. ar_add ar s v)) xs s0"

definition largest_from :: "'n arith \<Rightarrow> 'n \<Rightarrow> ('a \<Rightarrow> error + 'n) \<Rightarrow> 'a list \<Rightarrow> error + 'n" where
  "largest_from ar m0 f xs =
     for_loop (\<lambda>x m. bind_res (f x) (\<lambda>v. Inr (if ar_less ar m v then v else m))) xs m0"

definition pnl_update_fl :: "'n arith \<Rightarrow> trade \<Rightarrow> 'n position_fl \<Rightarrow> error + 'n position_fl" where
  "pnl_update_fl ar t p =
     bind_res (trade_shares_fl ar t) (\<lambda>shares.
       if outcome t = Some ''YES''
       then bind_res (ar_add ar (yes_shares_fl p) shares) (\<lambda>ys.
            bind_res (ar_add ar (yes_cost_fl p) (ar_num ar (the (amount t)))) (\<lambda>yc.
              Inr (p\<lparr>yes_shares_fl := ys, yes_cost_fl := yc, trades_fl := trades_fl p @ [t]\<rparr>)))
       else bind_res (ar_add ar (no_shares_fl p) shares) (\<lambda>ns.
            bind_res (ar_add ar (no_cost_fl p) (ar_num ar (the (amount t)))) (\<lambda>nc.
              Inr (p\<lparr>no_shares_fl := ns, no_cost_fl := nc, trades_fl := trades_fl p @ [t]\<rparr>))))"

definition impact_update_fl :: "'n arith \<Rightarrow> trade \<Rightarrow> 'n impact_fl \<Rightarrow> error + 'n impact_fl" where
  "impact_update_fl ar t d =
     bind_res (trade_impact_fl ar t) (\<lambda>imp.
     bind_res (ar_add ar (total_price_impact_fl d) imp) (\<lambda>total.
       Inr (d\<lparr>total_price_impact_fl := total,
              impact_trades_fl := impact_trades_fl d + 1,
              biggest_move_fl :=
                (if ar_less ar (biggest_move_fl d) imp then imp else biggest_move_fl d)\<rparr>)))"

definition res_step ::
    "'v \<Rightarrow> ('a \<Rightarrow> trade) \<Rightarrow> ('a \<Rightarrow> 'v \<Rightarrow> error + 'v) \<Rightarrow>
     ('a \<Rightarrow> (string \<times> 'v) list \<Rightarrow> error + (string \<times> 'v) list) \<Rightarrow> bool" where
  "res_step d tr upd body \<longleftrightarrow>
     (\<forall>x acc acc'. body x acc = Inr acc' \<longrightarrow>
        (if is_red (tr x) then acc' = acc
         else \<exists>u v. user (tr x) = Some u \<and> upd x (dict_get d acc u) = Inr v \<and>
                    acc' = dict_upd d u (\<lambda>_. v) acc))"

text \<open>The P&L records of the market of two traders in exact arithmetic.\<close>

definition two_traders_pnl_fl :: "rat pnl_entry_fl list" where
  "two_traders_pnl_fl =
     [\<lparr>pnl_user_fl = ''ann'', pnl_yes_cost_fl = 100, pnl_no_cost_fl = 0, pnl_total_cost_fl = 100,
       pnl_yes_value_fl = 200, pnl_no_value_fl = 0, pnl_estimated_pnl_fl = 100,
       pnl_roi_pct_fl = 100, pnl_trade_count_fl = 1, pnl_position_fl = ''LONG''\<rparr>,
      \<lparr>pnl_user_fl = ''bob'', pnl_yes_cost_fl = 0, pnl_no_cost_fl = 10, pnl_total_cost_fl = 10,
       pnl_yes_value_fl = 0, pnl_no_value_fl = 357 / 50, pnl_estimated_pnl_fl = - (143 / 50),
       pnl_roi_pct_fl = - (143 / 5), pnl_trade_count_fl = 1, pnl_position_fl = ''SHORT''\<rparr>]"

text \<open>The impact record of the two-trade market in exact arithmetic.\<close>

definition impact_market_fl :: "rat mi_entry_fl list" where
  "impact_market_fl =
     [\<lparr>mi_user_fl = ''ann'', mi_total_impact_pct_fl = 20, mi_avg_impact_pct_fl = 10,
       mi_biggest_move_pct_fl = 15, mi_trade_count_fl = 2\<rparr>]"

section \<open>Properties\<close>

subsection \<open>Results, loops and dictionaries\<close>

lemma bind_res_simps [simp]: "bind_res (Inl e) f = Inl e" "bind_res (Inr v) f = f v"
  by (simp_all add: bind_res_def)

lemma bind_res_eq_Inr: "bind_res m f = Inr y \<longleftrightarrow> (\<exists>v. m = Inr v \<and> f v = Inr y)"
  by (cases m) simp_all

lemma bind_res_eq_Inl: "bind_res m f = Inl e \<longleftrightarrow> m = Inl e \<or> (\<exists>v. m = Inr v \<and> f v = Inl e)"
  by (cases m) simp_all

lemma map_res_total: "map_res (\<lambda>x. Inr (g x)) xs = Inr (map g xs)"
  by (induction xs) simp_all

lemma map_res_Inr: "map_res f xs = Inr ys \<Longrightarrow> list_all2 (\<lambda>x y. f x = Inr y) xs ys"
  by (induction xs arbitrary: ys) (auto simp: bind_res_eq_Inr)

lemma dict_get_upd:
  "dict_get d (dict_upd d k f kvs) k' = (if k' = k then f (dict_get d kvs k) else dict_get d kvs k')"
  by (induction kvs) auto

lemma dict_upd_keys:
  "map fst (dict_upd d k f kvs) = (if k \<in> set (map fst kvs) then map fst kvs else map fst kvs @ [k])"
  by (induction kvs) (auto simp: image_iff, force+)

lemma dict_get_member:
  "distinct (map fst kvs) \<Longrightarrow> (k, v) \<in> set kvs \<Longrightarrow> dict_get d kvs k = v"
  by (induction kvs) (auto simp: rev_image_eqI)





lemma set_trader_ids: "set (trader_ids ts) = {u. \<exists>t\<in>set ts. \<not> is_red t \<and> user t = Some u}"
  by (force simp: trader_ids_def List.map_filter_def image_iff)

lemma for_loop_fold:
  assumes "fold_step d tr g body" "for_loop body xs acc = Inr acc'"
  shows "dict_get d acc' u =
           fold g (filter (\<lambda>x. \<not> is_red (tr x) \<and> user (tr x) = Some u) xs) (dict_get d acc u)"
  using assms(2)
proof (induction xs arbitrary: acc)
  case Nil
  then show ?case by simp
next
  case (Cons x xs)
  from Cons.prems obtain a1 where s: "body x acc = Inr a1" and l: "for_loop body xs a1 = Inr acc'"
    by (auto simp: bind_res_eq_Inr)
  from assms(1) s have c: "if is_red (tr x) then a1 = acc
         else \<exists>u. user (tr x) = Some u \<and> a1 = dict_upd d u (g x) acc"
    unfolding fold_step_def by blast
  show ?case
  proof (cases "is_red (tr x)")
    case True
    with c Cons.IH [OF l] show ?thesis by simp
  next
    case False
    with c obtain w where w: "user (tr x) = Some w" "a1 = dict_upd d w (g x) acc" by auto
    show ?thesis using Cons.IH [OF l] w False by (simp add: dict_get_upd)
  qed
qed

lemma for_loop_keys:
  assumes "fold_step d tr g body" "for_loop body xs acc = Inr acc'"
  shows "set (map fst acc') = set (map fst acc) \<union> set (trader_ids (map tr xs)) \<and>
         (distinct (map fst acc) \<longrightarrow> distinct (map fst acc'))"
  using assms(2)
proof (induction xs arbitrary: acc)
  case Nil
  then show ?case by (simp add: trader_ids_def List.map_filter_def)
next
  case (Cons x xs)
  from Cons.prems obtain a1 where s: "body x acc = Inr a1" and l: "for_loop body xs a1 = Inr acc'"
    by (auto simp: bind_res_eq_Inr)
  from assms(1) s have c: "if is_red (tr x) then a1 = acc
         else \<exists>u. user (tr x) = Some u \<and> a1 = dict_upd d u (g x) acc"
    unfolding fold_step_def by blast
  show ?case
  proof (cases "is_red (tr x)")
    case True
    with c Cons.IH [OF l] show ?thesis by (simp add: set_trader_ids)
  next
    case False
    with c obtain w where w: "user (tr x) = Some w" "a1 = dict_upd d w (g x) acc" by auto
    have k: "set (map fst a1) = insert w (set (map fst acc))"
      unfolding w(2) dict_upd_keys by auto
    have d: "distinct (map fst acc) \<longrightarrow> distinct (map fst a1)"
      unfolding w(2) dict_upd_keys by auto
    have t: "set (trader_ids (map tr (x # xs))) = insert w (set (trader_ids (map tr xs)))"
      using False w(1) by (auto simp: set_trader_ids)
    show ?thesis using Cons.IH [OF l] k d t by auto
  qed
qed

lemma getitem_eq_Inr: "getitem k x = Inr v \<longleftrightarrow> x = Some v"
  by (cases x) simp_all

lemma dict_upd_cong: "(\<And>v. f v = g v) \<Longrightarrow> dict_upd d k f kvs = dict_upd d k g kvs"
  by (induction kvs) auto

lemma pnl_step_fold: "fold_step default_position id pnl_update pnl_step"
  unfolding fold_step_def
proof (intro allI impI)
  fix t acc acc'
  assume a: "pnl_step t acc = Inr acc'"
  show "if is_red (id t) then acc' = acc
        else \<exists>u. user (id t) = Some u \<and> acc' = dict_upd default_position u (pnl_update t) acc"
  proof (cases "is_red t")
    case True
    with a show ?thesis by (simp add: pnl_step_def)
  next
    case False
    with a obtain u am pb oc where f: "user t = Some u" "amount t = Some am"
        "prob_before t = Some pb" "outcome t = Some oc"
      by (auto simp: pnl_step_def bind_res_eq_Inr getitem_eq_Inr)
    have "acc' = dict_upd default_position u (pnl_update t) acc"
    proof (cases "oc = ''YES''")
      case True
      have "pnl_update t = (\<lambda>p. p\<lparr>yes_shares := yes_shares p + (if pb / 100 > 0 then am / (pb / 100) else 0),
             yes_cost := yes_cost p + am, trades := trades p @ [t]\<rparr>)"
        using f True by (simp add: pnl_update_def trade_shares_def norm_prob_def fun_eq_iff)
      then show ?thesis using a False f True
        by (simp add: pnl_step_def py_div_def split: if_splits)
    next
      case F: False
      have "pnl_update t = (\<lambda>p. p\<lparr>no_shares := no_shares p + (if pb / 100 < 1 then am / (1 - pb / 100) else 0),
             no_cost := no_cost p + am, trades := trades p @ [t]\<rparr>)"
        using f F by (simp add: pnl_update_def trade_shares_def norm_prob_def fun_eq_iff)
      then show ?thesis using a False f F
        by (simp add: pnl_step_def py_div_def split: if_splits)
    qed
    then show ?thesis using False f by simp
  qed
qed

lemma timing_step_fold: "fold_step default_timing snd (timing_update q1 q3) (timing_step q1 q3)"
  unfolding fold_step_def
  by (auto simp: timing_step_def Let_def bind_res_eq_Inr getitem_eq_Inr timing_update_def
      intro!: dict_upd_cong split: if_splits)

lemma history_step_fold: "fold_step [] id (\<lambda>t h. h @ [hist_of t]) history_step"
  unfolding fold_step_def
  by (auto simp: history_step_def bind_res_eq_Inr getitem_eq_Inr hist_of_def split: if_splits)


lemma user_trades_filter_id:
  "filter (\<lambda>x. \<not> is_red (id x) \<and> user (id x) = Some u) ts = user_trades u ts"
  by (simp add: user_trades_def)








lemma two_traders_classify: "classify_traders two_traders two_traders_pnl = Inr two_traders_classes"
  by code_simp





lemma list_all2_member:
  "list_all2 P xs ys \<Longrightarrow> y \<in> set ys \<Longrightarrow> \<exists>x\<in>set xs. P x y"
  by (induction rule: list_all2_induct) auto

lemma list_all2_member_left:
  "list_all2 P xs ys \<Longrightarrow> x \<in> set xs \<Longrightarrow> \<exists>y\<in>set ys. P x y"
  by (induction rule: list_all2_induct) auto

lemma loop_entry:
  assumes "fold_step d tr g body" "for_loop body xs [] = Inr acc" "(u, v) \<in> set acc"
  shows "v = fold g (filter (\<lambda>x. \<not> is_red (tr x) \<and> user (tr x) = Some u) xs) d"
    and "u \<in> set (trader_ids (map tr xs))"
proof -
  from for_loop_keys [OF assms(1,2)]
  have k: "set (map fst acc) = set (trader_ids (map tr xs))" and d: "distinct (map fst acc)"
    by simp_all
  from assms(3) have "u \<in> set (map fst acc)" by force
  with k show "u \<in> set (trader_ids (map tr xs))" by simp
  have "v = dict_get d acc u"
    using dict_get_member [OF d assms(3)] by simp
  then show "v = fold g (filter (\<lambda>x. \<not> is_red (tr x) \<and> user (tr x) = Some u) xs) d"
    using for_loop_fold [OF assms(1,2), of u] by simp
qed

lemma estimate_pnl_single:
  "estimate_pnl [mk_trade u 100 ''YES'' 25 pa tstamp False] (1 / 2) =
     Inr [\<lparr>pnl_user = u, pnl_yes_cost = 100, pnl_no_cost = 0, pnl_total_cost = 100,
           pnl_yes_value = 200, pnl_no_value = 0, pnl_estimated_pnl = 100, pnl_roi_pct = 100,
           pnl_trade_count = 1, pnl_position = ''LONG''\<rparr>]"
  by (simp add: estimate_pnl_def mk_trade_def pnl_step_def is_red_def py_div_def pnl_result_def
      default_position_def Let_def py_round_def)

lemma position_le_refl: "position_le p p"
  by (simp add: position_le_def)

lemma position_le_trans: "position_le p q \<Longrightarrow> position_le q r \<Longrightarrow> position_le p r"
  by (auto simp: position_le_def)

lemma pnl_step_monotone:
  assumes "pnl_step t tp = Inr tp1" "amount_nonneg t"
  shows "position_le (dict_get default_position tp u) (dict_get default_position tp1 u)"
proof (cases "is_red t")
  case True
  with assms(1) show ?thesis by (simp add: pnl_step_def position_le_refl)
next
  case False
  with assms(1) obtain w a pb oc where f: "user t = Some w" "amount t = Some a"
      "prob_before t = Some pb" "outcome t = Some oc"
    by (auto simp: pnl_step_def bind_res_eq_Inr getitem_eq_Inr)
  from f(2) assms(2) have a: "0 \<le> a" by (simp add: amount_nonneg_def)
  have s: "0 \<le> trade_shares t"
    using a f by (simp add: trade_shares_def norm_prob_def)
  from pnl_step_fold assms(1) False f(1)
  have "tp1 = dict_upd default_position w (pnl_update t) tp"
    unfolding fold_step_def by fastforce
  then show ?thesis
    using a s f by (simp add: dict_get_upd position_le_def pnl_update_def)
qed

lemma pnl_loop_monotone:
  assumes "for_loop pnl_step ts tp = Inr tp'" "list_all amount_nonneg ts"
  shows "position_le (dict_get default_position tp u) (dict_get default_position tp' u)"
  using assms
proof (induction ts arbitrary: tp)
  case Nil
  then show ?case by (simp add: position_le_refl)
next
  case (Cons t ts)
  from Cons.prems(1) obtain tp1 where s: "pnl_step t tp = Inr tp1" "for_loop pnl_step ts tp1 = Inr tp'"
    by (auto simp: bind_res_eq_Inr)
  from Cons.prems(2) have n: "amount_nonneg t" "list_all amount_nonneg ts" by simp_all
  from position_le_trans [OF pnl_step_monotone [OF s(1) n(1)] Cons.IH [OF s(2) n(2)]]
  show ?case .
qed

lemma bind_res_assoc: "bind_res (bind_res m f) g = bind_res m (\<lambda>x. bind_res (f x) g)"
  by (cases m) simp_all

lemma for_loop_append:
  "for_loop body (xs @ ys) acc = bind_res (for_loop body xs acc) (for_loop body ys)"
proof (induction xs arbitrary: acc)
  case Nil
  show ?case by simp
next
  case (Cons x xs)
  have "for_loop body (xs @ ys) = (\<lambda>a. bind_res (for_loop body xs a) (for_loop body ys))"
    using Cons.IH by (intro ext)
  then show ?case by (simp add: bind_res_assoc)
qed

text \<open>
  C9. When no trade has a negative amount, folding further trades into the positions never
  lowers a trader's \<open>yes_shares\<close>, \<open>no_shares\<close>, \<open>yes_cost\<close> or \<open>no_cost\<close>, whatever the
  positions were before; the positions after a prefix of the collection are therefore below
  those after the whole of it, and, starting from no positions, every quantity is at least 0.
\<close>

theorem positions_monotone:
  "(list_all amount_nonneg ts \<and> for_loop pnl_step ts tp = Inr tp' \<longrightarrow>
      position_le (dict_get default_position tp u) (dict_get default_position tp' u)) \<and>
   (list_all amount_nonneg (xs @ ys) \<and> for_loop pnl_step (xs @ ys) [] = Inr tp2 \<longrightarrow>
      (\<exists>tp1. for_loop pnl_step xs [] = Inr tp1 \<and> for_loop pnl_step ys tp1 = Inr tp2 \<and>
             position_le default_position (dict_get default_position tp1 u) \<and>
             position_le (dict_get default_position tp1 u) (dict_get default_position tp2 u))) \<and>
   (list_all amount_nonneg ts \<and> for_loop pnl_step ts [] = Inr tp' \<and> (u, p) \<in> set tp' \<longrightarrow>
      0 \<le> yes_shares p \<and> 0 \<le> no_shares p \<and> 0 \<le> yes_cost p \<and> 0 \<le> no_cost p)"
proof -
  have p1: "position_le (dict_get default_position tp u) (dict_get default_position tp' u)"
    if "list_all amount_nonneg ts \<and> for_loop pnl_step ts tp = Inr tp'" for tp tp' ts
    using that pnl_loop_monotone by blast
  have p2: "\<exists>tp1. for_loop pnl_step xs [] = Inr tp1 \<and> for_loop pnl_step ys tp1 = Inr tp2 \<and>
             position_le default_position (dict_get default_position tp1 u) \<and>
             position_le (dict_get default_position tp1 u) (dict_get default_position tp2 u)"
    if h: "list_all amount_nonneg (xs @ ys) \<and> for_loop pnl_step (xs @ ys) [] = Inr tp2"
  proof -
    from h obtain tp1 where s: "for_loop pnl_step xs [] = Inr tp1" "for_loop pnl_step ys tp1 = Inr tp2"
      by (auto simp: for_loop_append bind_res_eq_Inr)
    from h have n: "list_all amount_nonneg xs" "list_all amount_nonneg ys" by simp_all
    from p1 [of xs "[]" tp1] s(1) n(1)
    have "position_le default_position (dict_get default_position tp1 u)" by simp
    moreover from p1 [of ys tp1 tp2] s(2) n(2)
    have "position_le (dict_get default_position tp1 u) (dict_get default_position tp2 u)" by simp
    ultimately show ?thesis using s by blast
  qed
  have p3: "0 \<le> yes_shares p \<and> 0 \<le> no_shares p \<and> 0 \<le> yes_cost p \<and> 0 \<le> no_cost p"
    if h: "list_all amount_nonneg ts \<and> for_loop pnl_step ts [] = Inr tp' \<and> (u, p) \<in> set tp'"
  proof -
    from h for_loop_keys [OF pnl_step_fold, of ts "[]" tp']
    have "distinct (map fst tp')" by simp
    from dict_get_member [OF this, of u p default_position] h
    have "dict_get default_position tp' u = p" by simp
    with p1 [of ts "[]" tp'] h show ?thesis
      by (simp add: position_le_def default_position_def)
  qed
  from p1 [of ts tp tp'] p2 p3 show ?thesis by blast
qed

theorem positions_monotone_witness:
  "list_all amount_nonneg two_traders \<and>
   for_loop pnl_step two_traders [(''ann'', default_position\<lparr>yes_cost := 5\<rparr>)] =
     Inr [(''ann'', \<lparr>yes_shares = 400, no_shares = 0, yes_cost = 105, no_cost = 0,
                     trades = [two_traders ! 0]\<rparr>),
          (''bob'', \<lparr>yes_shares = 0, no_shares = 100 / 7, yes_cost = 0, no_cost = 10,
                     trades = [two_traders ! 1]\<rparr>)] \<and>
   position_le (default_position\<lparr>yes_cost := 5\<rparr>)
     \<lparr>yes_shares = 400, no_shares = 0, yes_cost = 105, no_cost = 0, trades = [two_traders ! 0]\<rparr>"
proof -
  have n: "list_all amount_nonneg two_traders"
    by (simp add: two_traders_def mk_trade_def amount_nonneg_def)
  have l: "for_loop pnl_step two_traders [(''ann'', default_position\<lparr>yes_cost := 5\<rparr>)] =
     Inr [(''ann'', \<lparr>yes_shares = 400, no_shares = 0, yes_cost = 105, no_cost = 0,
                     trades = [two_traders ! 0]\<rparr>),
          (''bob'', \<lparr>yes_shares = 0, no_shares = 100 / 7, yes_cost = 0, no_cost = 10,
                     trades = [two_traders ! 1]\<rparr>)]"
    by (simp add: two_traders_def mk_trade_def pnl_step_def is_red_def py_div_def
        default_position_def)
  show ?thesis
    using positions_monotone [of two_traders "[(''ann'', default_position\<lparr>yes_cost := 5\<rparr>)]"
        "[(''ann'', \<lparr>yes_shares = 400, no_shares = 0, yes_cost = 105, no_cost = 0,
                     trades = [two_traders ! 0]\<rparr>),
          (''bob'', \<lparr>yes_shares = 0, no_shares = 100 / 7, yes_cost = 0, no_cost = 10,
                     trades = [two_traders ! 1]\<rparr>)]" "''ann''"] n l
    by simp
qed

lemma getitem_eq_Inl: "getitem k x = Inl e \<longleftrightarrow> x = None \<and> e = KeyError k"
  by (cases x) auto

lemma for_loop_error:
  assumes "for_loop body xs acc = Inl e"
  shows "\<exists>x\<in>set xs. \<exists>a. body x a = Inl e"
  using assms
  by (induction xs arbitrary: acc) (auto simp: bind_res_eq_Inl)

lemma map_res_error:
  assumes "map_res f xs = Inl e"
  shows "\<exists>x\<in>set xs. f x = Inl e"
  using assms
  by (induction xs) (auto simp: bind_res_eq_Inl)

lemma pnl_step_no_zde: "pnl_step t tp \<noteq> Inl ZeroDivisionError"
  by (auto simp: pnl_step_def bind_res_eq_Inl getitem_eq_Inl py_div_def split: if_splits)

lemma pnl_result_no_zde: "pnl_result cp up \<noteq> Inl ZeroDivisionError"
  by (auto simp: pnl_result_def Let_def bind_res_eq_Inl py_div_def split: if_splits)

lemma estimate_pnl_no_zde: "estimate_pnl ts cp \<noteq> Inl ZeroDivisionError"
proof
  assume "estimate_pnl ts cp = Inl ZeroDivisionError"
  then consider "for_loop pnl_step ts [] = Inl ZeroDivisionError"
    | tp where "map_res (pnl_result cp) tp = Inl ZeroDivisionError"
    by (auto simp: estimate_pnl_def bind_res_eq_Inl)
  then show False
  proof cases
    case 1
    from for_loop_error [OF 1] show False using pnl_step_no_zde by blast
  next
    case 2
    from map_res_error [OF 2] show False using pnl_result_no_zde by blast
  qed
qed

lemma map_res_length: "map_res f xs = Inr ys \<Longrightarrow> length ys = length xs"
  using map_res_Inr [of f xs ys] by (simp add: list_all2_lengthD)

lemma sorted_by_timestamp_length: "sorted_by_timestamp ts = Inr s \<Longrightarrow> length s = length ts"
  by (auto simp: sorted_by_timestamp_def bind_res_eq_Inr dest: map_res_length)

lemma sorted_by_timestamp_no_zde: "sorted_by_timestamp ts \<noteq> Inl ZeroDivisionError"
proof
  assume "sorted_by_timestamp ts = Inl ZeroDivisionError"
  then have "map_res (\<lambda>t. bind_res (getitem ''timestamp'' (timestamp t)) (\<lambda>k. Inr (k, t))) ts
      = Inl ZeroDivisionError"
    by (auto simp: sorted_by_timestamp_def bind_res_eq_Inl)
  from map_res_error [OF this] show False
    by (auto simp: bind_res_eq_Inl getitem_eq_Inl)
qed

lemma timing_step_no_zde: "timing_step q1 q3 it tt \<noteq> Inl ZeroDivisionError"
  by (auto simp: timing_step_def Let_def bind_res_eq_Inl getitem_eq_Inl split: if_splits)

lemma timing_result_no_zde: "0 < n \<Longrightarrow> timing_result n ud \<noteq> Inl ZeroDivisionError"
  by (auto simp: timing_result_def Let_def bind_res_eq_Inl py_div_def split: if_splits enat.splits)

lemma analyze_timing_no_zde: "analyze_timing ts \<noteq> Inl ZeroDivisionError"
proof
  assume a: "analyze_timing ts = Inl ZeroDivisionError"
  then have ne: "ts \<noteq> []" by (auto simp: analyze_timing_def)
  from a ne consider "sorted_by_timestamp ts = Inl ZeroDivisionError"
    | s where "sorted_by_timestamp ts = Inr s"
        "for_loop (timing_step (length s div 4) (length s * 3 div 4)) (List.enumerate 0 s) []
           = Inl ZeroDivisionError"
    | s tt where "sorted_by_timestamp ts = Inr s"
        "map_res (timing_result (length s)) tt = Inl ZeroDivisionError"
    by (auto simp: analyze_timing_def Let_def bind_res_eq_Inl)
  then show False
  proof cases
    case 1
    then show False using sorted_by_timestamp_no_zde by blast
  next
    case 2
    from for_loop_error [OF 2(2)] show False using timing_step_no_zde by blast
  next
    case 3
    from sorted_by_timestamp_length [OF 3(1)] ne have "0 < length s" by simp
    from map_res_error [OF 3(2)] timing_result_no_zde [OF this] show False by blast
  qed
qed

lemma history_step_no_zde: "history_step t th \<noteq> Inl ZeroDivisionError"
  by (auto simp: history_step_def bind_res_eq_Inl getitem_eq_Inl split: if_splits)

lemma position_result_no_zde: "position_result uh \<noteq> Inl ZeroDivisionError"
  by (auto simp: position_result_def Let_def bind_res_eq_Inl py_div_def
      split: if_splits list.splits)

lemma analyze_position_changes_no_zde: "analyze_position_changes ts \<noteq> Inl ZeroDivisionError"
proof
  assume "analyze_position_changes ts = Inl ZeroDivisionError"
  then consider "sorted_by_timestamp ts = Inl ZeroDivisionError"
    | s where "for_loop history_step s [] = Inl ZeroDivisionError"
    | th where "map_res position_result th = Inl ZeroDivisionError"
    by (auto simp: analyze_position_changes_def bind_res_eq_Inl)
  then show False
  proof cases
    case 1
    then show False using sorted_by_timestamp_no_zde by blast
  next
    case 2
    from for_loop_error [OF 2] show False using history_step_no_zde by blast
  next
    case 3
    from map_res_error [OF 3] show False using position_result_no_zde by blast
  qed
qed

lemma impact_step_no_zde: "impact_step t ti \<noteq> Inl ZeroDivisionError"
  by (auto simp: impact_step_def Let_def bind_res_eq_Inl getitem_eq_Inl split: if_splits)

lemma impact_result_no_zde: "impact_result ud \<noteq> Inl ZeroDivisionError"
  by (auto simp: impact_result_def Let_def bind_res_eq_Inl py_div_def split: if_splits)

lemma analyze_market_impact_no_zde: "analyze_market_impact ts \<noteq> Inl ZeroDivisionError"
proof
  assume "analyze_market_impact ts = Inl ZeroDivisionError"
  then consider "for_loop impact_step ts [] = Inl ZeroDivisionError"
    | ti where "map_res impact_result ti = Inl ZeroDivisionError"
    by (auto simp: analyze_market_impact_def bind_res_eq_Inl)
  then show False
  proof cases
    case 1
    from for_loop_error [OF 1] show False using impact_step_no_zde by blast
  next
    case 2
    from map_res_error [OF 2] show False using impact_result_no_zde by blast
  qed
qed

lemma stats_step_no_zde: "stats_step t st \<noteq> Inl ZeroDivisionError"
  by (auto simp: stats_step_def bind_res_eq_Inl getitem_eq_Inl split: if_splits)

lemma yes_pct_step_no_zde: "yes_pct_step lk us \<noteq> Inl ZeroDivisionError"
  by (auto simp: yes_pct_step_def Let_def bind_res_eq_Inl py_div_def split: if_splits)

lemma whale_threshold_no_zde: "whale_threshold vs \<noteq> Inl ZeroDivisionError"
  by (auto simp: whale_threshold_def list_index_def split: if_splits)

lemma classify_traders_no_zde: "classify_traders ts pd \<noteq> Inl ZeroDivisionError"
proof
  assume "classify_traders ts pd = Inl ZeroDivisionError"
  then consider "for_loop stats_step ts [] = Inl ZeroDivisionError"
    | st where "map_res (yes_pct_step (pnl_lookup pd)) st = Inl ZeroDivisionError"
    | vs where "whale_threshold vs = Inl ZeroDivisionError"
    by (auto simp: classify_traders_def bind_res_eq_Inl)
  then show False
  proof cases
    case 1
    from for_loop_error [OF 1] show False using stats_step_no_zde by blast
  next
    case 2
    from map_res_error [OF 2] show False using yes_pct_step_no_zde by blast
  next
    case 3
    then show False using whale_threshold_no_zde by blast
  qed
qed

lemma zero_cost_estimate: "estimate_pnl zero_cost_market (1 / 2) = Inr zero_cost_pnl"
  by (simp add: zero_cost_market_def zero_cost_pnl_def estimate_pnl_def mk_trade_def pnl_step_def
      is_red_def py_div_def pnl_result_def default_position_def Let_def py_round_def)

lemma py_round_0: "py_round n 0 = 0"
  by (simp add: py_round_def)

text \<open>
  C8, as the claim states it, fails: the classifier guards its division by the total cost, but
  the guarded result defaults to 50, not to 0. A trader whose total cost is 0 gets
  \<open>yes_pct = 50\<close>.
\<close>

theorem yes_pct_default_counterexample:
  "estimate_pnl zero_cost_market (1 / 2) = Inr zero_cost_pnl \<and>
   pnl_total_cost (zero_cost_pnl ! 0) = 0 \<and>
   classify_traders zero_cost_market zero_cost_pnl =
     Inr [\<lparr>cls_user = ''ann'', cls_types = [''WHALE''], cls_volume = 0, cls_trades = 1,
           cls_yes_pct = 50, cls_estimated_pnl = 0, cls_roi_pct = 0\<rparr>] \<and>
   (50 :: rat) \<noteq> 0"
proof -
  have "classify_traders zero_cost_market zero_cost_pnl =
     Inr [\<lparr>cls_user = ''ann'', cls_types = [''WHALE''], cls_volume = 0, cls_trades = 1,
           cls_yes_pct = 50, cls_estimated_pnl = 0, cls_roi_pct = 0\<rparr>]"
    by code_simp
  then show ?thesis
    using zero_cost_estimate by (simp add: zero_cost_pnl_def)
qed

text \<open>
  C8, amended. No analyzer raises a division-by-zero error, on any trade collection. The
  divisions of the Position Reconstructor (shares at \<open>prob_before\<close> 0 for YES and 100 for NO, the
  ROI at a non-positive total cost), the average entry prices of the flip detector and the
  average impact fall back to 0 when their guard fails; the classifier's \<open>yes_pct\<close> falls back
  to 50; the Timing Analyzer divides by the number of trades, which is not 0 because the empty
  collection returns before.
\<close>

theorem no_division_by_zero:
  "estimate_pnl ts cp \<noteq> Inl ZeroDivisionError \<and>
   analyze_timing ts \<noteq> Inl ZeroDivisionError \<and>
   analyze_position_changes ts \<noteq> Inl ZeroDivisionError \<and>
   analyze_market_impact ts \<noteq> Inl ZeroDivisionError \<and>
   classify_traders ts pd \<noteq> Inl ZeroDivisionError \<and>
   analyze_timing [] = Inr EmptyDict \<and>
   for_loop pnl_step [mk_trade u a ''YES'' 0 pa k False] [] =
     Inr [(u, \<lparr>yes_shares = 0, no_shares = 0, yes_cost = a, no_cost = 0,
               trades = [mk_trade u a ''YES'' 0 pa k False]\<rparr>)] \<and>
   for_loop pnl_step [mk_trade u a ''NO'' 100 pa k False] [] =
     Inr [(u, \<lparr>yes_shares = 0, no_shares = 0, yes_cost = 0, no_cost = a,
               trades = [mk_trade u a ''NO'' 100 pa k False]\<rparr>)] \<and>
   (pnl_result cp (u, pos) = Inr e \<and> \<not> 0 < yes_cost pos + no_cost pos \<longrightarrow> pnl_roi_pct e = 0) \<and>
   (position_result (u, h) = Inr (Some pe) \<and>
    \<not> 0 < sum_list (map h_amount (filter (\<lambda>t. h_outcome t = ''YES'') h)) \<longrightarrow>
      pc_avg_yes_entry_prob pe = 0) \<and>
   (position_result (u, h) = Inr (Some pe) \<and>
    \<not> 0 < sum_list (map h_amount (filter (\<lambda>t. h_outcome t = ''NO'') h)) \<longrightarrow>
      pc_avg_no_entry_prob pe = 0) \<and>
   (impact_result (u, d) = Inr ie \<and> \<not> 0 < impact_trades d \<longrightarrow> mi_avg_impact_pct ie = 0) \<and>
   (yes_pct_step lk (u, s) = Inr us \<and> lk u = Some p \<and> \<not> 0 < pnl_total_cost p \<longrightarrow>
      yes_pct (snd us) = 50)"
proof -
  have q1: "for_loop pnl_step [mk_trade u a ''YES'' 0 pa k False] [] =
     Inr [(u, \<lparr>yes_shares = 0, no_shares = 0, yes_cost = a, no_cost = 0,
               trades = [mk_trade u a ''YES'' 0 pa k False]\<rparr>)]"
    by (simp add: mk_trade_def pnl_step_def is_red_def py_div_def default_position_def)
  have q2: "for_loop pnl_step [mk_trade u a ''NO'' 100 pa k False] [] =
     Inr [(u, \<lparr>yes_shares = 0, no_shares = 0, yes_cost = 0, no_cost = a,
               trades = [mk_trade u a ''NO'' 100 pa k False]\<rparr>)]"
    by (simp add: mk_trade_def pnl_step_def is_red_def py_div_def default_position_def)
  have q3: "pnl_result cp (u, pos) = Inr e \<and> \<not> 0 < yes_cost pos + no_cost pos \<longrightarrow> pnl_roi_pct e = 0"
    by (auto simp: pnl_result_def Let_def py_round_0)
  have q4: "position_result (u, h) = Inr (Some pe) \<and>
    \<not> 0 < sum_list (map h_amount (filter (\<lambda>t. h_outcome t = ''YES'') h)) \<longrightarrow>
      pc_avg_yes_entry_prob pe = 0"
    by (auto simp: position_result_def Let_def py_round_0 bind_res_eq_Inr
        split: if_splits list.splits)
  have q5: "position_result (u, h) = Inr (Some pe) \<and>
    \<not> 0 < sum_list (map h_amount (filter (\<lambda>t. h_outcome t = ''NO'') h)) \<longrightarrow>
      pc_avg_no_entry_prob pe = 0"
    by (auto simp: position_result_def Let_def py_round_0 bind_res_eq_Inr
        split: if_splits list.splits)
  have q6: "impact_result (u, d) = Inr ie \<and> \<not> 0 < impact_trades d \<longrightarrow> mi_avg_impact_pct ie = 0"
    by (auto simp: impact_result_def Let_def py_round_0)
  have q7: "yes_pct_step lk (u, s) = Inr us \<and> lk u = Some p \<and> \<not> 0 < pnl_total_cost p \<longrightarrow>
      yes_pct (snd us) = 50"
    by (auto simp: yes_pct_step_def Let_def)
  have q0: "analyze_timing [] = Inr EmptyDict"
    by (simp add: analyze_timing_def)
  show ?thesis
    using estimate_pnl_no_zde [of ts cp] analyze_timing_no_zde [of ts]
      analyze_position_changes_no_zde [of ts] analyze_market_impact_no_zde [of ts]
      classify_traders_no_zde [of ts pd] q0 q1 q2 q3 q4 q5 q6 q7
    by blast
qed

theorem no_division_by_zero_witness:
  "pnl_result (1 / 2) (''ann'', default_position) = Inr ((zero_cost_pnl ! 0)\<lparr>pnl_trade_count := 0\<rparr>) \<and>
   \<not> 0 < yes_cost default_position + no_cost default_position \<and>
   pnl_roi_pct ((zero_cost_pnl ! 0)\<lparr>pnl_trade_count := 0\<rparr>) = 0 \<and>
   yes_pct_step (pnl_lookup zero_cost_pnl) (''ann'', default_stats) =
     Inr (''ann'', default_stats\<lparr>yes_pct := 50\<rparr>) \<and>
   pnl_lookup zero_cost_pnl ''ann'' = Some (zero_cost_pnl ! 0) \<and>
   \<not> 0 < pnl_total_cost (zero_cost_pnl ! 0) \<and>
   yes_pct (snd (''ann'', default_stats\<lparr>yes_pct := 50\<rparr>)) = 50 \<and>
   impact_result (''ann'', default_impact) =
     Inr \<lparr>mi_user = ''ann'', mi_total_impact_pct = 0, mi_avg_impact_pct = 0,
          mi_biggest_move_pct = 0, mi_trade_count = 0\<rparr> \<and>
   \<not> 0 < impact_trades default_impact \<and>
   estimate_pnl zero_cost_market (1 / 2) \<noteq> Inl ZeroDivisionError"
proof -
  have a: "pnl_result (1 / 2) (''ann'', default_position) = Inr ((zero_cost_pnl ! 0)\<lparr>pnl_trade_count := 0\<rparr>)"
    "\<not> 0 < yes_cost default_position + no_cost default_position"
    by (simp_all add: pnl_result_def default_position_def zero_cost_pnl_def Let_def py_round_0)
  have b: "yes_pct_step (pnl_lookup zero_cost_pnl) (''ann'', default_stats) =
     Inr (''ann'', default_stats\<lparr>yes_pct := 50\<rparr>)"
    "pnl_lookup zero_cost_pnl ''ann'' = Some (zero_cost_pnl ! 0)"
    "\<not> 0 < pnl_total_cost (zero_cost_pnl ! 0)"
    by (simp_all add: yes_pct_step_def pnl_lookup_def zero_cost_pnl_def Let_def)
  have c: "impact_result (''ann'', default_impact) =
     Inr \<lparr>mi_user = ''ann'', mi_total_impact_pct = 0, mi_avg_impact_pct = 0,
          mi_biggest_move_pct = 0, mi_trade_count = 0\<rparr>"
    "\<not> 0 < impact_trades default_impact"
    by (simp_all add: impact_result_def default_impact_def Let_def py_round_0)
  show ?thesis
    using no_division_by_zero [of zero_cost_market "1 / 2" zero_cost_pnl "''ann''" 0 0 0
        default_position "(zero_cost_pnl ! 0)\<lparr>pnl_trade_count := 0\<rparr>" "[]"
        undefined default_impact
        "\<lparr>mi_user = ''ann'', mi_total_impact_pct = 0, mi_avg_impact_pct = 0,
          mi_biggest_move_pct = 0, mi_trade_count = 0\<rparr>"
        "pnl_lookup zero_cost_pnl" default_stats "(''ann'', default_stats\<lparr>yes_pct := 50\<rparr>)"
        "zero_cost_pnl ! 0"] a b c
    by simp
qed

lemma for_loop_succeeds:
  assumes "\<And>x a. x \<in> set xs \<Longrightarrow> \<exists>a'. body x a = Inr a'"
  shows "\<exists>acc'. for_loop body xs acc = Inr acc'"
  using assms
proof (induction xs arbitrary: acc)
  case Nil
  show ?case by simp
next
  case (Cons x xs)
  from Cons.prems [of x acc] obtain a1 where a1: "body x acc = Inr a1" by auto
  from Cons.IH [of a1] Cons.prems obtain acc' where "for_loop body xs a1 = Inr acc'" by auto
  with a1 show ?case by simp
qed

lemma for_loop_steps:
  assumes "for_loop body xs acc = Inr acc'" "x \<in> set xs"
  shows "\<exists>a a'. body x a = Inr a'"
  using assms
  by (induction xs arbitrary: acc) (auto simp: bind_res_eq_Inr)

lemma for_loop_Inr_iff:
  assumes "\<And>x a. (\<exists>a'. body x a = Inr a') \<longleftrightarrow> ok x"
  shows "(\<exists>acc'. for_loop body xs acc = Inr acc') \<longleftrightarrow> list_all ok xs"
proof
  assume "\<exists>acc'. for_loop body xs acc = Inr acc'"
  then obtain acc' where l: "for_loop body xs acc = Inr acc'" ..
  show "list_all ok xs"
    unfolding list_all_iff
  proof
    fix x assume "x \<in> set xs"
    from for_loop_steps [OF l this] assms show "ok x" by blast
  qed
next
  assume "list_all ok xs"
  then have "\<And>x a. x \<in> set xs \<Longrightarrow> \<exists>a'. body x a = Inr a'"
    using assms by (simp add: list_all_iff)
  from for_loop_succeeds [of xs body acc, OF this] show "\<exists>acc'. for_loop body xs acc = Inr acc'" .
qed

lemma map_res_Inr_iff:
  "(\<exists>ys. map_res f xs = Inr ys) \<longleftrightarrow> list_all (\<lambda>x. \<exists>y. f x = Inr y) xs"
  by (induction xs) (auto simp: bind_res_eq_Inr)

lemma pnl_step_Inr_iff: "(\<exists>a'. pnl_step t a = Inr a') \<longleftrightarrow> pnl_ok t"
  by (cases "user t"; cases "amount t"; cases "prob_before t"; cases "outcome t")
     (auto simp: pnl_step_def pnl_ok_def py_div_def)

lemma pnl_result_Inr: "\<exists>e. pnl_result cp up = Inr e"
  by (simp add: pnl_result_def Let_def py_div_def)

lemma impact_step_Inr_iff: "(\<exists>a'. impact_step t a = Inr a') \<longleftrightarrow> impact_ok t"
  by (cases "user t"; cases "prob_after t"; cases "prob_before t")
     (auto simp: impact_step_def impact_ok_def Let_def)

lemma impact_result_Inr: "\<exists>e. impact_result ud = Inr e"
  by (simp add: impact_result_def Let_def py_div_def)

lemma stats_step_Inr_iff: "(\<exists>a'. stats_step t a = Inr a') \<longleftrightarrow> stats_ok t"
  by (cases "user t"; cases "amount t") (auto simp: stats_step_def stats_ok_def)

lemma yes_pct_step_Inr: "\<exists>y. yes_pct_step lk us = Inr y"
  by (simp add: yes_pct_step_def Let_def py_div_def)

lemma whale_threshold_Inr: "\<exists>w. whale_threshold vs = Inr w"
  by (cases vs) (simp_all add: whale_threshold_def list_index_def min_def)

lemma history_step_Inr_iff:
  "(\<exists>a'. history_step t a = Inr a') \<longleftrightarrow>
     is_red t \<or> (user t \<noteq> None \<and> outcome t \<noteq> None \<and> amount t \<noteq> None \<and> date t \<noteq> None \<and>
                  prob_before t \<noteq> None)"
  by (cases "user t"; cases "outcome t"; cases "amount t"; cases "date t"; cases "prob_before t")
     (auto simp: history_step_def)

lemma position_result_Inr: "\<exists>r. position_result uh = Inr r"
  by (cases "snd uh") (simp_all add: position_result_def Let_def py_div_def)

lemma timing_step_Inr_iff:
  "(\<exists>a'. timing_step q1 q3 it a = Inr a') \<longleftrightarrow> is_red (snd it) \<or> user (snd it) \<noteq> None"
  by (cases "user (snd it)") (auto simp: timing_step_def Let_def)

lemma timing_result_Inr: "0 < n \<Longrightarrow> \<exists>e. timing_result n ud = Inr e"
  by (cases "first_trade_idx (snd ud)") (simp_all add: timing_result_def Let_def py_div_def)

lemma map_res_map_snd:
  "map_res (\<lambda>t. bind_res (getitem k (f t)) (\<lambda>v. Inr (v, t))) ts = Inr kts \<Longrightarrow> map snd kts = ts"
  by (induction ts arbitrary: kts) (auto simp: bind_res_eq_Inr)

lemma sorted_by_timestamp_set: "sorted_by_timestamp ts = Inr s \<Longrightarrow> set s = set ts"
proof -
  assume "sorted_by_timestamp ts = Inr s"
  then obtain kts where
    m: "map_res (\<lambda>t. bind_res (getitem ''timestamp'' (timestamp t)) (\<lambda>k. Inr (k, t))) ts = Inr kts"
    and s: "s = map snd (sort_key fst kts)"
    by (auto simp: sorted_by_timestamp_def bind_res_eq_Inr)
  have "set s = snd ` set kts" using s by simp
  also have "\<dots> = set (map snd kts)" by simp
  finally show ?thesis using map_res_map_snd [OF m] by simp
qed

lemma sorted_by_timestamp_Inr_iff:
  "(\<exists>s. sorted_by_timestamp ts = Inr s) \<longleftrightarrow> list_all (\<lambda>t. timestamp t \<noteq> None) ts"
proof -
  have "(\<exists>s. sorted_by_timestamp ts = Inr s) \<longleftrightarrow>
        (\<exists>kts. map_res (\<lambda>t. bind_res (getitem ''timestamp'' (timestamp t)) (\<lambda>k. Inr (k, t))) ts = Inr kts)"
    by (auto simp: sorted_by_timestamp_def bind_res_eq_Inr)
  also have "\<dots> \<longleftrightarrow> list_all (\<lambda>t. timestamp t \<noteq> None) ts"
    unfolding map_res_Inr_iff
    by (rule arg_cong [where f = "\<lambda>P. list_all P ts"]) (auto simp: fun_eq_iff bind_res_eq_Inr getitem_eq_Inr)
  finally show ?thesis .
qed

lemma estimate_pnl_Inr_iff: "(\<exists>rs. estimate_pnl ts cp = Inr rs) \<longleftrightarrow> list_all pnl_ok ts"
proof -
  have t: "\<exists>results. map_res (pnl_result cp) tp = Inr results" for tp
    unfolding map_res_Inr_iff by (simp add: list_all_iff pnl_result_Inr)
  have "(\<exists>rs. estimate_pnl ts cp = Inr rs) \<longleftrightarrow> (\<exists>tp. for_loop pnl_step ts [] = Inr tp)"
    using t by (auto simp: estimate_pnl_def bind_res_eq_Inr)
  also have "\<dots> \<longleftrightarrow> list_all pnl_ok ts"
    by (rule for_loop_Inr_iff) (rule pnl_step_Inr_iff)
  finally show ?thesis .
qed

lemma analyze_market_impact_Inr_iff:
  "(\<exists>rs. analyze_market_impact ts = Inr rs) \<longleftrightarrow> list_all impact_ok ts"
proof -
  have t: "\<exists>results. map_res impact_result ti = Inr results" for ti
    unfolding map_res_Inr_iff by (simp add: list_all_iff impact_result_Inr)
  have "(\<exists>rs. analyze_market_impact ts = Inr rs) \<longleftrightarrow> (\<exists>ti. for_loop impact_step ts [] = Inr ti)"
    using t by (auto simp: analyze_market_impact_def bind_res_eq_Inr)
  also have "\<dots> \<longleftrightarrow> list_all impact_ok ts"
    by (rule for_loop_Inr_iff) (rule impact_step_Inr_iff)
  finally show ?thesis .
qed

lemma classify_traders_Inr_iff:
  "(\<exists>rs. classify_traders ts pd = Inr rs) \<longleftrightarrow> list_all stats_ok ts"
proof -
  have t: "\<exists>st. map_res (yes_pct_step (pnl_lookup pd)) st0 = Inr st" for st0
    unfolding map_res_Inr_iff list_all_iff using yes_pct_step_Inr by blast
  have "(\<exists>rs. classify_traders ts pd = Inr rs) \<longleftrightarrow> (\<exists>st0. for_loop stats_step ts [] = Inr st0)"
    using t whale_threshold_Inr by (simp add: classify_traders_def bind_res_eq_Inr) metis
  also have "\<dots> \<longleftrightarrow> list_all stats_ok ts"
    by (rule for_loop_Inr_iff) (rule stats_step_Inr_iff)
  finally show ?thesis .
qed

lemma set_snd_enumerate: "snd ` set (List.enumerate n xs) = set xs"
  by (metis map_snd_enumerate set_map)

lemma timing_loop_Inr_iff:
  "(\<exists>tt. for_loop (timing_step q1 q3) (List.enumerate 0 s) [] = Inr tt) \<longleftrightarrow>
     list_all (\<lambda>t. is_red t \<or> user t \<noteq> None) s"
proof -
  have "(\<exists>tt. for_loop (timing_step q1 q3) (List.enumerate 0 s) [] = Inr tt) \<longleftrightarrow>
        list_all (\<lambda>it. is_red (snd it) \<or> user (snd it) \<noteq> None) (List.enumerate 0 s)"
    by (rule for_loop_Inr_iff) (rule timing_step_Inr_iff)
  also have "\<dots> \<longleftrightarrow> (\<forall>t\<in>snd ` set (List.enumerate 0 s). is_red t \<or> user t \<noteq> None)"
    by (simp add: list_all_iff)
  also have "\<dots> \<longleftrightarrow> list_all (\<lambda>t. is_red t \<or> user t \<noteq> None) s"
    unfolding set_snd_enumerate by (simp add: list_all_iff)
  finally show ?thesis .
qed

lemma analyze_timing_Inr_iff: "(\<exists>r. analyze_timing ts = Inr r) \<longleftrightarrow> list_all timing_ok ts"
proof (cases "ts = []")
  case True
  then show ?thesis by (simp add: analyze_timing_def)
next
  case False
  have r: "\<exists>rs. map_res (timing_result (length s)) tt = Inr rs"
    if "sorted_by_timestamp ts = Inr s" for s tt
  proof -
    from sorted_by_timestamp_length [OF that] False have "0 < length s" by simp
    then show ?thesis
      unfolding map_res_Inr_iff list_all_iff using timing_result_Inr by blast
  qed
  have "(\<exists>r. analyze_timing ts = Inr r) \<longleftrightarrow>
        (\<exists>s. sorted_by_timestamp ts = Inr s \<and>
           (\<exists>tt. for_loop (timing_step (length s div 4) (length s * 3 div 4))
                   (List.enumerate 0 s) [] = Inr tt))"
    using False r by (simp add: analyze_timing_def Let_def bind_res_eq_Inr) metis
  also have "\<dots> \<longleftrightarrow> (\<exists>s. sorted_by_timestamp ts = Inr s \<and>
                        list_all (\<lambda>t. is_red t \<or> user t \<noteq> None) s)"
    unfolding timing_loop_Inr_iff ..
  also have "\<dots> \<longleftrightarrow> (\<exists>s. sorted_by_timestamp ts = Inr s) \<and>
                        list_all (\<lambda>t. is_red t \<or> user t \<noteq> None) ts"
    using sorted_by_timestamp_set by (auto simp: list_all_iff)
  also have "\<dots> \<longleftrightarrow> list_all timing_ok ts"
    unfolding sorted_by_timestamp_Inr_iff by (auto simp: list_all_iff timing_ok_def)
  finally show ?thesis .
qed

lemma analyze_position_changes_Inr_iff:
  "(\<exists>rs. analyze_position_changes ts = Inr rs) \<longleftrightarrow> list_all history_ok ts"
proof -
  have r: "\<exists>rs. map_res position_result th = Inr rs" for th
    unfolding map_res_Inr_iff list_all_iff using position_result_Inr by blast
  have "(\<exists>rs. analyze_position_changes ts = Inr rs) \<longleftrightarrow>
        (\<exists>s. sorted_by_timestamp ts = Inr s \<and> (\<exists>th. for_loop history_step s [] = Inr th))"
    using r by (simp add: analyze_position_changes_def bind_res_eq_Inr) metis
  also have "\<dots> \<longleftrightarrow> (\<exists>s. sorted_by_timestamp ts = Inr s \<and>
       list_all (\<lambda>t. is_red t \<or> (user t \<noteq> None \<and> outcome t \<noteq> None \<and> amount t \<noteq> None \<and>
          date t \<noteq> None \<and> prob_before t \<noteq> None)) s)"
    using for_loop_Inr_iff [of history_step _ _ "[]", OF history_step_Inr_iff] by simp
  also have "\<dots> \<longleftrightarrow> (\<exists>s. sorted_by_timestamp ts = Inr s) \<and>
       list_all (\<lambda>t. is_red t \<or> (user t \<noteq> None \<and> outcome t \<noteq> None \<and> amount t \<noteq> None \<and>
          date t \<noteq> None \<and> prob_before t \<noteq> None)) ts"
    using sorted_by_timestamp_set by (auto simp: list_all_iff)
  also have "\<dots> \<longleftrightarrow> list_all history_ok ts"
    unfolding sorted_by_timestamp_Inr_iff by (auto simp: list_all_iff history_ok_def)
  finally show ?thesis .
qed

text \<open>
  C7, as the claim states it, fails: a record without \<open>outcome\<close> makes \<open>estimate_pnl\<close> raise
  \<open>KeyError\<close>, and one without \<open>user\<close> makes \<open>analyze_timing\<close> raise it, although the
  collection without the malformed record is analyzed normally.
\<close>

theorem missing_field_counterexample:
  "estimate_pnl missing_outcome_market (1 / 2) = Inl (KeyError ''outcome'') \<and>
   estimate_pnl (tl missing_outcome_market) (1 / 2) = Inr [two_traders_pnl ! 1] \<and>
   analyze_timing missing_user_market = Inl (KeyError ''user'') \<and>
   analyze_timing (tl missing_user_market) =
     Inr (Entries [\<lparr>tm_user = ''bob'', tm_timing_type = ''LATE'', tm_first_trade_pct = Some 0,
                    tm_early_trades = 0, tm_mid_trades = 0, tm_late_trades = 1\<rparr>])"
proof -
  have a: "estimate_pnl missing_outcome_market (1 / 2) = Inl (KeyError ''outcome'')"
    by (simp add: missing_outcome_market_def estimate_pnl_def mk_trade_def pnl_step_def
        is_red_def py_div_def)
  have b: "estimate_pnl (tl missing_outcome_market) (1 / 2) = Inr [two_traders_pnl ! 1]"
    by code_simp
  have c: "analyze_timing missing_user_market = Inl (KeyError ''user'')"
    by code_simp
  have d: "analyze_timing (tl missing_user_market) =
     Inr (Entries [\<lparr>tm_user = ''bob'', tm_timing_type = ''LATE'', tm_first_trade_pct = Some 0,
                    tm_early_trades = 0, tm_mid_trades = 0, tm_late_trades = 1\<rparr>])"
    by code_simp
  from a b c d show ?thesis by simp
qed

lemma user_trades_nonempty: "u \<in> set (trader_ids ts) \<Longrightarrow> user_trades u ts \<noteq> []"
  by (auto simp: set_trader_ids user_trades_def filter_empty_conv)

text \<open>
  C6, as the claim states it, fails: the Market-Impact Analyzer does not normalize. Two trades
  that move the probability from 40 to 45 and from 45 to 30 on the input scale, which are
  (0.40, 0.45) and (0.45, 0.30) once normalized, give \<open>total_impact_pct = 20\<close> and
  \<open>biggest_move_pct = 15\<close>, not 0.20 and 0.15.
\<close>

theorem impact_scale_counterexample:
  "analyze_market_impact impact_market =
     Inr [\<lparr>mi_user = ''ann'', mi_total_impact_pct = 20, mi_avg_impact_pct = 10,
           mi_biggest_move_pct = 15, mi_trade_count = 2\<rparr>] \<and>
   (20 :: rat) \<noteq> 20 / 100 \<and> (15 :: rat) \<noteq> 15 / 100"
proof -
  have "analyze_market_impact impact_market =
     Inr [\<lparr>mi_user = ''ann'', mi_total_impact_pct = 20, mi_avg_impact_pct = 10,
           mi_biggest_move_pct = 15, mi_trade_count = 2\<rparr>]"
    by code_simp
  then show ?thesis by simp
qed

lemma insort_key_map_snd:
  assumes "\<forall>p\<in>set kts. fst p = f (snd p)"
  shows "map snd (insort_key fst (f t, t) kts) = insort_key f t (map snd kts)"
  using assms by (induction kts) auto

lemma set_insort_key_pairs:
  "\<forall>p\<in>set kts. fst p = f (snd p) \<Longrightarrow> \<forall>p\<in>set (insort_key fst (f t, t) kts). fst p = f (snd p)"
  by (simp add: set_insort_key)

lemma sort_key_map_snd:
  "map snd (sort_key fst (map (\<lambda>t. (f t, t)) ts)) = sort_key f ts \<and>
   (\<forall>p\<in>set (sort_key fst (map (\<lambda>t. (f t, t)) ts)). fst p = f (snd p))"
proof (induction ts)
  case Nil
  show ?case by simp
next
  case (Cons t ts)
  then show ?case
    using insort_key_map_snd [of "sort_key fst (map (\<lambda>t. (f t, t)) ts)" f t]
    by (simp add: set_insort_key)
qed

lemma timestamps_keyed:
  "map_res (\<lambda>t. bind_res (getitem ''timestamp'' (timestamp t)) (\<lambda>k. Inr (k, t))) ts = Inr kts \<Longrightarrow>
     kts = map (\<lambda>t. (the (timestamp t), t)) ts"
  by (induction ts arbitrary: kts) (auto simp: bind_res_eq_Inr getitem_eq_Inr)

lemma sorted_by_timestamp_sort:
  "sorted_by_timestamp ts = Inr s \<Longrightarrow> s = sort_key (\<lambda>t. the (timestamp t)) ts"
  using sort_key_map_snd [of "\<lambda>t. the (timestamp t)" ts]
  by (auto simp: sorted_by_timestamp_def bind_res_eq_Inr dest!: timestamps_keyed)

lemma fold_timing_update_early:
  "early_trades (fold (timing_update q1 q3) xs d) =
     early_trades d + length (filter (\<lambda>it. fst it < q1) xs)"
  by (induction xs arbitrary: d) (simp_all add: timing_update_def)

lemma fold_timing_update_mid:
  "mid_trades (fold (timing_update q1 q3) xs d) =
     mid_trades d + length (filter (\<lambda>it. q1 \<le> fst it \<and> fst it < q3) xs)"
  by (induction xs arbitrary: d) (simp_all add: timing_update_def)

lemma fold_timing_update_late:
  "late_trades (fold (timing_update q1 q3) xs d) =
     late_trades d + length (filter (\<lambda>it. q1 \<le> fst it \<and> q3 \<le> fst it) xs)"
  by (induction xs arbitrary: d) (simp_all add: timing_update_def)

lemma timing_result_fields:
  assumes "timing_result n (u, d) = Inr e"
  shows "tm_user e = u" "tm_early_trades e = early_trades d" "tm_mid_trades e = mid_trades d"
    "tm_late_trades e = late_trades d"
    "tm_timing_type e =
       (if early_trades d > late_trades d then ''EARLY''
        else if late_trades d > early_trades d then ''LATE'' else ''SPREAD'')"
  using assms
  by (auto simp: timing_result_def Let_def bind_res_eq_Inr split: if_splits)

lemma analyze_timing_entry:
  assumes "analyze_timing ts = Inr (Entries rs)" "e \<in> set rs"
  shows "ts \<noteq> []"
    and "sorted_by_timestamp ts = Inr (sort_key (\<lambda>t. the (timestamp t)) ts)"
    and "timing_result (length ts)
           (tm_user e,
            fold (timing_update (length ts div 4) (length ts * 3 div 4))
              (filter (\<lambda>it. \<not> is_red (snd it) \<and> user (snd it) = Some (tm_user e))
                 (List.enumerate 0 (sort_key (\<lambda>t. the (timestamp t)) ts)))
              default_timing) = Inr e"
proof -
  show ne: "ts \<noteq> []" using assms(1) by (auto simp: analyze_timing_def)
  from assms(1) ne obtain s tt where
    s: "sorted_by_timestamp ts = Inr s" and
    l: "for_loop (timing_step (length s div 4) (length s * 3 div 4)) (List.enumerate 0 s) [] = Inr tt" and
    m: "map_res (timing_result (length s)) tt = Inr rs"
    by (auto simp: analyze_timing_def Let_def bind_res_eq_Inr)
  have s': "s = sort_key (\<lambda>t. the (timestamp t)) ts" using sorted_by_timestamp_sort [OF s] .
  have len: "length s = length ts" using s' by simp
  show "sorted_by_timestamp ts = Inr (sort_key (\<lambda>t. the (timestamp t)) ts)" using s s' by simp
  from list_all2_member [OF map_res_Inr [OF m] assms(2)]
  obtain ud where ud: "ud \<in> set tt" "timing_result (length s) ud = Inr e" by blast
  have u: "tm_user e = fst ud" using timing_result_fields(1) [of "length s" "fst ud" "snd ud" e] ud(2) by simp
  have mem: "(tm_user e, snd ud) \<in> set tt" using ud(1) u by simp
  from loop_entry(1) [OF timing_step_fold l mem]
  have "ud = (tm_user e, fold (timing_update (length s div 4) (length s * 3 div 4))
              (filter (\<lambda>it. \<not> is_red (snd it) \<and> user (snd it) = Some (tm_user e))
                 (List.enumerate 0 s)) default_timing)"
    using u by (metis prod.collapse)
  with ud(2) show "timing_result (length ts)
           (tm_user e,
            fold (timing_update (length ts div 4) (length ts * 3 div 4))
              (filter (\<lambda>it. \<not> is_red (snd it) \<and> user (snd it) = Some (tm_user e))
                 (List.enumerate 0 (sort_key (\<lambda>t. the (timestamp t)) ts)))
              default_timing) = Inr e"
    unfolding s' [symmetric] len [symmetric] by simp
qed

lemma quartile_market_timing:
  "analyze_timing quartile_market =
     Inr (Entries
       [\<lparr>tm_user = ''ann'', tm_timing_type = ''EARLY'', tm_first_trade_pct = Some 0,
          tm_early_trades = 3, tm_mid_trades = 0, tm_late_trades = 0\<rparr>,
        \<lparr>tm_user = ''mid'', tm_timing_type = ''SPREAD'', tm_first_trade_pct = Some 25,
          tm_early_trades = 0, tm_mid_trades = 6, tm_late_trades = 0\<rparr>,
        \<lparr>tm_user = ''bob'', tm_timing_type = ''LATE'', tm_first_trade_pct = Some 75,
          tm_early_trades = 0, tm_mid_trades = 0, tm_late_trades = 3\<rparr>])"
  by code_simp

lemma spread_market_timing:
  "analyze_timing spread_market =
     Inr (Entries
       [\<lparr>tm_user = ''cat'', tm_timing_type = ''SPREAD'', tm_first_trade_pct = Some 0,
          tm_early_trades = 1, tm_mid_trades = 0, tm_late_trades = 1\<rparr>,
        \<lparr>tm_user = ''mid'', tm_timing_type = ''SPREAD'', tm_first_trade_pct = Some (83 / 10),
          tm_early_trades = 2, tm_mid_trades = 6, tm_late_trades = 2\<rparr>])"
  by code_simp

text \<open>
  C2. For a non-empty collection of \<open>total\<close> trades, sorted stably by timestamp, with
  \<open>q1 = total div 4\<close> and \<open>q3 = (total * 3) div 4\<close>, every record of \<open>analyze_timing\<close> counts the
  trader's (non-redemption) trades of rank index below \<open>q1\<close> as early, from \<open>q1\<close> and below
  \<open>q3\<close> as mid, from \<open>q3\<close> on as late, and is EARLY if early exceeds late, LATE if late exceeds
  early, SPREAD otherwise. With 12 trades the cutoffs are 3 and 9: a trader at indices 0, 1, 2
  is EARLY, one at 9, 10, 11 is LATE, one at 0 and 11 is SPREAD.
\<close>

theorem timing_quartiles:
  "(analyze_timing ts = Inr (Entries rs) \<and> e \<in> set rs \<longrightarrow>
      (let sorted_trades = sort_key (\<lambda>t. the (timestamp t)) ts;
           total = length ts;
           q1 = total div 4;
           q3 = (total * 3) div 4;
           u = tm_user e
       in ts \<noteq> [] \<and> sorted_by_timestamp ts = Inr sorted_trades \<and>
          tm_early_trades e = rank_count (\<lambda>i. i < q1) u sorted_trades \<and>
          tm_mid_trades e = rank_count (\<lambda>i. q1 \<le> i \<and> i < q3) u sorted_trades \<and>
          tm_late_trades e = rank_count (\<lambda>i. q3 \<le> i) u sorted_trades \<and>
          tm_timing_type e =
            (if tm_early_trades e > tm_late_trades e then ''EARLY''
             else if tm_late_trades e > tm_early_trades e then ''LATE'' else ''SPREAD''))) \<and>
   length quartile_market = 12 \<and> (12 :: nat) div 4 = 3 \<and> ((12 :: nat) * 3) div 4 = 9 \<and>
   analyze_timing quartile_market =
     Inr (Entries
       [\<lparr>tm_user = ''ann'', tm_timing_type = ''EARLY'', tm_first_trade_pct = Some 0,
          tm_early_trades = 3, tm_mid_trades = 0, tm_late_trades = 0\<rparr>,
        \<lparr>tm_user = ''mid'', tm_timing_type = ''SPREAD'', tm_first_trade_pct = Some 25,
          tm_early_trades = 0, tm_mid_trades = 6, tm_late_trades = 0\<rparr>,
        \<lparr>tm_user = ''bob'', tm_timing_type = ''LATE'', tm_first_trade_pct = Some 75,
          tm_early_trades = 0, tm_mid_trades = 0, tm_late_trades = 3\<rparr>]) \<and>
   length spread_market = 12 \<and>
   analyze_timing spread_market =
     Inr (Entries
       [\<lparr>tm_user = ''cat'', tm_timing_type = ''SPREAD'', tm_first_trade_pct = Some 0,
          tm_early_trades = 1, tm_mid_trades = 0, tm_late_trades = 1\<rparr>,
        \<lparr>tm_user = ''mid'', tm_timing_type = ''SPREAD'', tm_first_trade_pct = Some (83 / 10),
          tm_early_trades = 2, tm_mid_trades = 6, tm_late_trades = 2\<rparr>])"
proof -
  have p1: "let sorted_trades = sort_key (\<lambda>t. the (timestamp t)) ts;
           total = length ts;
           q1 = total div 4;
           q3 = (total * 3) div 4;
           u = tm_user e
       in ts \<noteq> [] \<and> sorted_by_timestamp ts = Inr sorted_trades \<and>
          tm_early_trades e = rank_count (\<lambda>i. i < q1) u sorted_trades \<and>
          tm_mid_trades e = rank_count (\<lambda>i. q1 \<le> i \<and> i < q3) u sorted_trades \<and>
          tm_late_trades e = rank_count (\<lambda>i. q3 \<le> i) u sorted_trades \<and>
          tm_timing_type e =
            (if tm_early_trades e > tm_late_trades e then ''EARLY''
             else if tm_late_trades e > tm_early_trades e then ''LATE'' else ''SPREAD'')"
    if h: "analyze_timing ts = Inr (Entries rs) \<and> e \<in> set rs"
  proof -
    from h analyze_timing_entry [of ts rs e]
    have ne: "ts \<noteq> []"
      and s: "sorted_by_timestamp ts = Inr (sort_key (\<lambda>t. the (timestamp t)) ts)"
      and r: "timing_result (length ts)
           (tm_user e,
            fold (timing_update (length ts div 4) (length ts * 3 div 4))
              (filter (\<lambda>it. \<not> is_red (snd it) \<and> user (snd it) = Some (tm_user e))
                 (List.enumerate 0 (sort_key (\<lambda>t. the (timestamp t)) ts)))
              default_timing) = Inr e"
      by simp_all
    have q: "length ts div 4 \<le> length ts * 3 div 4" by simp
    have late: "(length ts div 4 \<le> i \<and> length ts * 3 div 4 \<le> i) = (length ts * 3 div 4 \<le> i)" for i
      using q by auto
    have c: "length (filter P (filter Q xs)) = length (filter (\<lambda>x. Q x \<and> P x) xs)"
      for P Q :: "nat \<times> trade \<Rightarrow> bool" and xs
      by (simp add: conj_commute)
    show ?thesis
      using ne s timing_result_fields(2-5) [OF r]
      unfolding Let_def rank_count_def
      by (simp add: fold_timing_update_early fold_timing_update_mid fold_timing_update_late
          default_timing_def late c conj_assoc)
  qed
  have l1: "length quartile_market = 12" by (simp add: quartile_market_def)
  have l2: "length spread_market = 12" by (simp add: spread_market_def)
  have d: "(12 :: nat) div 4 = 3 \<and> ((12 :: nat) * 3) div 4 = 9" by simp
  from p1 l1 l2 d quartile_market_timing spread_market_timing show ?thesis by blast
qed

theorem timing_quartiles_witness:
  "analyze_timing spread_market =
     Inr (Entries
       [\<lparr>tm_user = ''cat'', tm_timing_type = ''SPREAD'', tm_first_trade_pct = Some 0,
          tm_early_trades = 1, tm_mid_trades = 0, tm_late_trades = 1\<rparr>,
        \<lparr>tm_user = ''mid'', tm_timing_type = ''SPREAD'', tm_first_trade_pct = Some (83 / 10),
          tm_early_trades = 2, tm_mid_trades = 6, tm_late_trades = 2\<rparr>]) \<and>
   rank_count (\<lambda>i. i < 3) ''mid'' (sort_key (\<lambda>t. the (timestamp t)) spread_market) = 2 \<and>
   rank_count (\<lambda>i. 3 \<le> i \<and> i < 9) ''mid'' (sort_key (\<lambda>t. the (timestamp t)) spread_market) = 6 \<and>
   rank_count (\<lambda>i. 9 \<le> i) ''mid'' (sort_key (\<lambda>t. the (timestamp t)) spread_market) = 2"
proof -
  have l: "length spread_market = 12" by (simp add: spread_market_def)
  from timing_quartiles [where ts = spread_market
      and rs = "[\<lparr>tm_user = ''cat'', tm_timing_type = ''SPREAD'', tm_first_trade_pct = Some 0,
          tm_early_trades = 1, tm_mid_trades = 0, tm_late_trades = 1\<rparr>,
        \<lparr>tm_user = ''mid'', tm_timing_type = ''SPREAD'', tm_first_trade_pct = Some (83 / 10),
          tm_early_trades = 2, tm_mid_trades = 6, tm_late_trades = 2\<rparr>]"
      and e = "\<lparr>tm_user = ''mid'', tm_timing_type = ''SPREAD'', tm_first_trade_pct = Some (83 / 10),
          tm_early_trades = 2, tm_mid_trades = 6, tm_late_trades = 2\<rparr>"] spread_market_timing l
  show ?thesis by (simp add: Let_def)
qed

lemma for_loop_filter:
  assumes "\<And>x a. skip x \<Longrightarrow> body x a = Inr a"
  shows "for_loop body (filter (\<lambda>x. \<not> skip x) xs) acc = for_loop body xs acc"
proof (induction xs arbitrary: acc)
  case Nil
  show ?case by simp
next
  case (Cons x xs)
  have "for_loop body (filter (\<lambda>x. \<not> skip x) xs) = for_loop body xs"
    using Cons.IH by (intro ext)
  then show ?case using assms by simp
qed

text \<open>
  C5. The Position Reconstructor, the Market-Impact Analyzer and the classifier give the same
  result on a collection and on the collection without its redemptions. The Timing Analyzer
  does not: it ranks and counts the redemptions before it skips them. In a market of one
  redemption followed by four trades, the first trader is at index 1 of 5 and comes out
  SPREAD with \<open>first_trade_pct = 20\<close>; without the redemption the same trader is at index 0
  of 4 and comes out EARLY with \<open>first_trade_pct = 0\<close>.
\<close>

theorem redemption_shifts_timing:
  "estimate_pnl (filter (\<lambda>t. \<not> is_red t) ts) cp = estimate_pnl ts cp \<and>
   analyze_market_impact (filter (\<lambda>t. \<not> is_red t) ts) = analyze_market_impact ts \<and>
   classify_traders (filter (\<lambda>t. \<not> is_red t) ts) pd = classify_traders ts pd \<and>
   analyze_timing redemption_market =
     Inr (Entries
       [\<lparr>tm_user = ''ann'', tm_timing_type = ''SPREAD'', tm_first_trade_pct = Some 20,
          tm_early_trades = 0, tm_mid_trades = 1, tm_late_trades = 0\<rparr>,
        \<lparr>tm_user = ''bob'', tm_timing_type = ''LATE'', tm_first_trade_pct = Some 40,
          tm_early_trades = 0, tm_mid_trades = 1, tm_late_trades = 2\<rparr>]) \<and>
   analyze_timing (filter (\<lambda>t. \<not> is_red t) redemption_market) =
     Inr (Entries
       [\<lparr>tm_user = ''ann'', tm_timing_type = ''EARLY'', tm_first_trade_pct = Some 0,
          tm_early_trades = 1, tm_mid_trades = 0, tm_late_trades = 0\<rparr>,
        \<lparr>tm_user = ''bob'', tm_timing_type = ''LATE'', tm_first_trade_pct = Some 25,
          tm_early_trades = 0, tm_mid_trades = 2, tm_late_trades = 1\<rparr>]) \<and>
   analyze_timing redemption_market \<noteq> analyze_timing (filter (\<lambda>t. \<not> is_red t) redemption_market)"
proof -
  have a: "for_loop pnl_step (filter (\<lambda>t. \<not> is_red t) ts) [] = for_loop pnl_step ts []"
    by (rule for_loop_filter) (simp add: pnl_step_def)
  have b: "for_loop impact_step (filter (\<lambda>t. \<not> is_red t) ts) [] = for_loop impact_step ts []"
    by (rule for_loop_filter) (simp add: impact_step_def)
  have c: "for_loop stats_step (filter (\<lambda>t. \<not> is_red t) ts) [] = for_loop stats_step ts []"
    by (rule for_loop_filter) (simp add: stats_step_def)
  have d: "analyze_timing redemption_market =
     Inr (Entries
       [\<lparr>tm_user = ''ann'', tm_timing_type = ''SPREAD'', tm_first_trade_pct = Some 20,
          tm_early_trades = 0, tm_mid_trades = 1, tm_late_trades = 0\<rparr>,
        \<lparr>tm_user = ''bob'', tm_timing_type = ''LATE'', tm_first_trade_pct = Some 40,
          tm_early_trades = 0, tm_mid_trades = 1, tm_late_trades = 2\<rparr>])"
    by code_simp
  have e: "analyze_timing (filter (\<lambda>t. \<not> is_red t) redemption_market) =
     Inr (Entries
       [\<lparr>tm_user = ''ann'', tm_timing_type = ''EARLY'', tm_first_trade_pct = Some 0,
          tm_early_trades = 1, tm_mid_trades = 0, tm_late_trades = 0\<rparr>,
        \<lparr>tm_user = ''bob'', tm_timing_type = ''LATE'', tm_first_trade_pct = Some 25,
          tm_early_trades = 0, tm_mid_trades = 2, tm_late_trades = 1\<rparr>])"
    by code_simp
  have f: "analyze_timing redemption_market \<noteq>
      analyze_timing (filter (\<lambda>t. \<not> is_red t) redemption_market)"
    unfolding d e by simp
  from a b c d e f show ?thesis
    by (simp add: estimate_pnl_def analyze_market_impact_def classify_traders_def)
qed

lemma flip_loop_changes:
  "flip_loop rest (n, d) = (n + changes (d # map h_outcome rest), last (d # map h_outcome rest))"
  by (induction rest arbitrary: n d) auto

lemma fold_append_map: "fold (\<lambda>t h. h @ [f t]) xs acc = acc @ map f xs"
  by (induction xs arbitrary: acc) simp_all

lemma user_trades_sort:
  "user_trades u (sort_key f ts) = sort_key f (user_trades u ts)"
  by (simp add: user_trades_def filter_sort)

lemma trader_ids_sort: "set (trader_ids (sort_key f ts)) = set (trader_ids ts)"
  by (simp add: set_trader_ids)

lemma position_result_fields:
  assumes "position_result (u, h) = Inr (Some e)"
  shows "2 \<le> length h" "pc_user e = u" "pc_trade_count e = length h"
    "pc_flips e = changes (map h_outcome h)" "pc_is_flipper e = (2 \<le> pc_flips e)"
proof -
  from assms show l: "2 \<le> length h"
    by (auto simp: position_result_def Let_def split: if_splits)
  then obtain h0 rest where h: "h = h0 # rest" by (cases h) auto
  from assms l h show "pc_user e = u" "pc_trade_count e = length h"
    "pc_flips e = changes (map h_outcome h)" "pc_is_flipper e = (2 \<le> pc_flips e)"
    by (auto simp: position_result_def Let_def bind_res_eq_Inr flip_loop_changes split: if_splits)
qed

lemma position_result_Some:
  assumes "2 \<le> length h"
  shows "\<exists>e. position_result (u, h) = Inr (Some e)"
proof -
  from assms obtain h0 rest where h: "h = h0 # rest" by (cases h) auto
  with assms show ?thesis
    by (cases rest) (simp_all add: position_result_def Let_def py_div_def)
qed

lemma map_filter_id_set: "e \<in> set (List.map_filter id xs) \<longleftrightarrow> Some e \<in> set xs"
  by (force simp: List.map_filter_def image_iff)

lemma position_changes_parts:
  assumes "analyze_position_changes ts = Inr rs"
  obtains th prs where
    "for_loop history_step (sort_key (\<lambda>t. the (timestamp t)) ts) [] = Inr th"
    "map_res position_result th = Inr prs"
    "set rs = {e. Some e \<in> set prs}"
proof -
  from assms obtain s th prs where
    s: "sorted_by_timestamp ts = Inr s" and
    l: "for_loop history_step s [] = Inr th" and
    m: "map_res position_result th = Inr prs" and
    r: "rs = sort_key (\<lambda>x. - int (pc_flips x)) (List.map_filter id prs)"
    by (auto simp: analyze_position_changes_def bind_res_eq_Inr)
  have "set rs = {e. Some e \<in> set prs}" using r by (auto simp: map_filter_id_set)
  with l m sorted_by_timestamp_sort [OF s] that show ?thesis by simp
qed

lemma history_entry:
  assumes "for_loop history_step s [] = Inr th" "(u, h) \<in> set th"
  shows "h = map hist_of (user_trades u s)" "u \<in> set (trader_ids s)"
  using loop_entry [OF history_step_fold assms]
  by (simp_all add: fold_append_map user_trades_def)

lemma analyze_position_changes_entry:
  assumes "analyze_position_changes ts = Inr rs" "e \<in> set rs"
  shows "position_result
           (pc_user e, map hist_of (user_trades (pc_user e) (sort_key (\<lambda>t. the (timestamp t)) ts)))
         = Inr (Some e)"
proof -
  from assms(1) obtain th prs where
    l: "for_loop history_step (sort_key (\<lambda>t. the (timestamp t)) ts) [] = Inr th" and
    m: "map_res position_result th = Inr prs" and
    r: "set rs = {e. Some e \<in> set prs}"
    by (rule position_changes_parts)
  from assms(2) r have "Some e \<in> set prs" by simp
  from list_all2_member [OF map_res_Inr [OF m] this]
  obtain uh where uh: "uh \<in> set th" "position_result uh = Inr (Some e)" by blast
  have u: "pc_user e = fst uh"
    using position_result_fields(2) [of "fst uh" "snd uh" e] uh(2) by simp
  have "(pc_user e, snd uh) \<in> set th" using uh(1) u by simp
  from history_entry(1) [OF l this]
  have "uh = (pc_user e, map hist_of (user_trades (pc_user e) (sort_key (\<lambda>t. the (timestamp t)) ts)))"
    using u by (metis prod.collapse)
  with uh(2) show ?thesis by simp
qed

lemma analyze_position_changes_present:
  assumes "analyze_position_changes ts = Inr rs" "2 \<le> length (user_trades u ts)"
  shows "\<exists>e\<in>set rs. pc_user e = u"
proof -
  let ?s = "sort_key (\<lambda>t. the (timestamp t)) ts"
  from assms(1) obtain th prs where
    l: "for_loop history_step ?s [] = Inr th" and
    m: "map_res position_result th = Inr prs" and
    r: "set rs = {e. Some e \<in> set prs}"
    by (rule position_changes_parts)
  from assms(2) have "user_trades u ts \<noteq> []" by auto
  then have "u \<in> set (trader_ids ts)"
    by (auto simp: set_trader_ids user_trades_def filter_empty_conv)
  then have "u \<in> set (trader_ids ?s)" by (simp add: trader_ids_sort)
  with for_loop_keys [OF history_step_fold l] have "u \<in> fst ` set th" by simp
  then obtain h where mem: "(u, h) \<in> set th" by auto
  from history_entry(1) [OF l mem] have "length h = length (user_trades u ts)"
    by (simp add: user_trades_sort)
  with assms(2) position_result_Some [of h u] obtain e where e: "position_result (u, h) = Inr (Some e)"
    by auto
  from list_all2_member_left [OF map_res_Inr [OF m] mem] e have "Some e \<in> set prs" by auto
  with r position_result_fields(2) [OF e] show ?thesis by auto
qed

lemma flip_market_changes:
  "analyze_position_changes flip_market =
     Inr [\<lparr>pc_user = ''ann'', pc_trade_count = 4, pc_flips = 3, pc_is_flipper = True,
           pc_avg_yes_entry_prob = 50, pc_avg_no_entry_prob = 50, pc_first_position = ''YES'',
           pc_final_position = ''NO''\<rparr>,
          \<lparr>pc_user = ''bob'', pc_trade_count = 3, pc_flips = 0, pc_is_flipper = False,
           pc_avg_yes_entry_prob = 50, pc_avg_no_entry_prob = 0, pc_first_position = ''YES'',
           pc_final_position = ''YES''\<rparr>]"
  by code_simp

text \<open>
  C3. The loop of the flip detector, started with \<open>last_direction\<close> at the first outcome,
  counts one flip for each trade whose outcome differs from the outcome before it, and ends
  with \<open>last_direction\<close> at the last outcome. Every record of \<open>analyze_position_changes\<close>
  belongs to a trader with at least 2 non-redemption trades, holds the direction changes of
  that trader's outcomes in timestamp order as \<open>flips\<close>, and has \<open>is_flipper\<close> exactly when
  \<open>flips \<ge> 2\<close>; a trader has a record exactly when the trader has at least 2 non-redemption
  trades. The outcomes YES, NO, YES, NO give 3 flips and a flipper, YES, YES, YES give 0
  flips and no flipper, and a trader with one trade is absent.
\<close>

theorem flips_count_changes:
  "flip_loop rest (n, d) = (n + changes (d # map h_outcome rest), last (d # map h_outcome rest)) \<and>
   (analyze_position_changes ts = Inr rs \<and> e \<in> set rs \<longrightarrow>
      (let h = trader_outcomes (pc_user e) ts in
         2 \<le> length h \<and> length h = length (user_trades (pc_user e) ts) \<and>
         pc_trade_count e = length h \<and> pc_flips e = changes h \<and>
         pc_is_flipper e = (2 \<le> pc_flips e))) \<and>
   (analyze_position_changes ts = Inr rs \<longrightarrow>
      ((\<exists>e\<in>set rs. pc_user e = u) \<longleftrightarrow> 2 \<le> length (user_trades u ts))) \<and>
   changes [''YES'', ''NO'', ''YES'', ''NO''] = 3 \<and> changes [''YES'', ''YES'', ''YES''] = 0 \<and>
   trader_outcomes ''ann'' flip_market = [''YES'', ''NO'', ''YES'', ''NO''] \<and>
   trader_outcomes ''bob'' flip_market = [''YES'', ''YES'', ''YES''] \<and>
   trader_outcomes ''cat'' flip_market = [''NO''] \<and>
   analyze_position_changes flip_market =
     Inr [\<lparr>pc_user = ''ann'', pc_trade_count = 4, pc_flips = 3, pc_is_flipper = True,
           pc_avg_yes_entry_prob = 50, pc_avg_no_entry_prob = 50, pc_first_position = ''YES'',
           pc_final_position = ''NO''\<rparr>,
          \<lparr>pc_user = ''bob'', pc_trade_count = 3, pc_flips = 0, pc_is_flipper = False,
           pc_avg_yes_entry_prob = 50, pc_avg_no_entry_prob = 0, pc_first_position = ''YES'',
           pc_final_position = ''YES''\<rparr>]"
proof -
  have p1: "let h = trader_outcomes (pc_user e) ts in
         2 \<le> length h \<and> length h = length (user_trades (pc_user e) ts) \<and>
         pc_trade_count e = length h \<and> pc_flips e = changes h \<and>
         pc_is_flipper e = (2 \<le> pc_flips e)"
    if h: "analyze_position_changes ts = Inr rs \<and> e \<in> set rs" for e
  proof -
    from h analyze_position_changes_entry [of ts rs e]
    have r: "position_result
           (pc_user e, map hist_of (user_trades (pc_user e) (sort_key (\<lambda>t. the (timestamp t)) ts)))
         = Inr (Some e)" by simp
    have o: "h_outcome \<circ> hist_of = (\<lambda>t. the (outcome t))"
      by (simp add: fun_eq_iff hist_of_def)
    show ?thesis
      using position_result_fields [OF r] unfolding Let_def trader_outcomes_def
      by (simp add: o user_trades_sort)
  qed
  have p2: "(\<exists>e\<in>set rs. pc_user e = u) \<longleftrightarrow> 2 \<le> length (user_trades u ts)"
    if a: "analyze_position_changes ts = Inr rs"
  proof
    assume "\<exists>e\<in>set rs. pc_user e = u"
    then obtain e where e: "e \<in> set rs" "pc_user e = u" by blast
    from p1 [of e] a e show "2 \<le> length (user_trades u ts)" by (simp add: Let_def)
  next
    assume "2 \<le> length (user_trades u ts)"
    from analyze_position_changes_present [OF a this] show "\<exists>e\<in>set rs. pc_user e = u" .
  qed
  have c: "changes [''YES'', ''NO'', ''YES'', ''NO''] = 3 \<and> changes [''YES'', ''YES'', ''YES''] = 0"
    by simp
  have t: "trader_outcomes ''ann'' flip_market = [''YES'', ''NO'', ''YES'', ''NO''] \<and>
   trader_outcomes ''bob'' flip_market = [''YES'', ''YES'', ''YES''] \<and>
   trader_outcomes ''cat'' flip_market = [''NO'']"
    by (simp add: trader_outcomes_def flip_market_def mk_trade_def user_trades_def is_red_def)
  from flip_loop_changes [of rest n d] p1 [of e] p2 c t flip_market_changes show ?thesis
    by blast
qed

theorem flips_count_changes_witness:
  "analyze_position_changes flip_market =
     Inr [\<lparr>pc_user = ''ann'', pc_trade_count = 4, pc_flips = 3, pc_is_flipper = True,
           pc_avg_yes_entry_prob = 50, pc_avg_no_entry_prob = 50, pc_first_position = ''YES'',
           pc_final_position = ''NO''\<rparr>,
          \<lparr>pc_user = ''bob'', pc_trade_count = 3, pc_flips = 0, pc_is_flipper = False,
           pc_avg_yes_entry_prob = 50, pc_avg_no_entry_prob = 0, pc_first_position = ''YES'',
           pc_final_position = ''YES''\<rparr>] \<and>
   length (user_trades ''ann'' flip_market) = 4 \<and>
   length (user_trades ''cat'' flip_market) = 1 \<and>
   changes (trader_outcomes ''ann'' flip_market) = 3"
proof -
  note inst = flips_count_changes [where ts = flip_market
      and rs = "[\<lparr>pc_user = ''ann'', pc_trade_count = 4, pc_flips = 3, pc_is_flipper = True,
           pc_avg_yes_entry_prob = 50, pc_avg_no_entry_prob = 50, pc_first_position = ''YES'',
           pc_final_position = ''NO''\<rparr>,
          \<lparr>pc_user = ''bob'', pc_trade_count = 3, pc_flips = 0, pc_is_flipper = False,
           pc_avg_yes_entry_prob = 50, pc_avg_no_entry_prob = 0, pc_first_position = ''YES'',
           pc_final_position = ''YES''\<rparr>]"
      and e = "\<lparr>pc_user = ''ann'', pc_trade_count = 4, pc_flips = 3, pc_is_flipper = True,
           pc_avg_yes_entry_prob = 50, pc_avg_no_entry_prob = 50, pc_first_position = ''YES'',
           pc_final_position = ''NO''\<rparr>"
      and u = "''cat''" and rest = "[]" and n = 0 and d = "''YES''"]
  have a: "analyze_position_changes flip_market =
     Inr [\<lparr>pc_user = ''ann'', pc_trade_count = 4, pc_flips = 3, pc_is_flipper = True,
           pc_avg_yes_entry_prob = 50, pc_avg_no_entry_prob = 50, pc_first_position = ''YES'',
           pc_final_position = ''NO''\<rparr>,
          \<lparr>pc_user = ''bob'', pc_trade_count = 3, pc_flips = 0, pc_is_flipper = False,
           pc_avg_yes_entry_prob = 50, pc_avg_no_entry_prob = 0, pc_first_position = ''YES'',
           pc_final_position = ''YES''\<rparr>]"
    using inst by (elim conjE) assumption
  have l: "length (user_trades ''cat'' flip_market) = 1"
    by (simp add: flip_market_def mk_trade_def user_trades_def is_red_def)
  from inst a have "length (user_trades ''ann'' flip_market) = 4 \<and>
      changes (trader_outcomes ''ann'' flip_market) = 3"
    by (simp add: Let_def)
  with a l show ?thesis by simp
qed

lemma set_insort_desc: "set (insort_desc lt key x ys) = insert x (set ys)"
  by (induction ys) auto

lemma set_sort_desc: "set (sort_desc lt key xs) = set xs"
  by (induction xs) (simp_all add: sort_desc_def set_insort_desc)

lemma res_step_fold_step:
  assumes "res_step d tr upd body"
  shows "fold_step d tr (\<lambda>x v. case upd x v of Inl e \<Rightarrow> v | Inr v' \<Rightarrow> v') body"
  unfolding fold_step_def
proof (intro allI impI)
  fix x acc acc'
  assume b: "body x acc = Inr acc'"
  from assms b have c: "if is_red (tr x) then acc' = acc
         else \<exists>u v. user (tr x) = Some u \<and> upd x (dict_get d acc u) = Inr v \<and>
                    acc' = dict_upd d u (\<lambda>_. v) acc"
    unfolding res_step_def by blast
  show "if is_red (tr x) then acc' = acc
        else \<exists>u. user (tr x) = Some u \<and>
               acc' = dict_upd d u (\<lambda>v. case upd x v of Inl e \<Rightarrow> v | Inr v' \<Rightarrow> v') acc"
  proof (cases "is_red (tr x)")
    case True
    with c show ?thesis by simp
  next
    case False
    with c obtain u v where u: "user (tr x) = Some u" "upd x (dict_get d acc u) = Inr v"
      "acc' = dict_upd d u (\<lambda>_. v) acc" by auto
    have "dict_upd d u (\<lambda>_. v) acc =
          dict_upd d u (\<lambda>w. case upd x w of Inl e \<Rightarrow> w | Inr v' \<Rightarrow> v') acc"
      using u(2) by (induction acc) auto
    with u False show ?thesis by simp
  qed
qed

lemma for_loop_res:
  assumes "res_step d tr upd body" "for_loop body xs acc = Inr acc'"
  shows "for_loop upd (filter (\<lambda>x. \<not> is_red (tr x) \<and> user (tr x) = Some u) xs) (dict_get d acc u)
           = Inr (dict_get d acc' u)"
  using assms(2)
proof (induction xs arbitrary: acc)
  case Nil
  then show ?case by simp
next
  case (Cons x xs)
  from Cons.prems obtain a1 where s: "body x acc = Inr a1" and l: "for_loop body xs a1 = Inr acc'"
    by (auto simp: bind_res_eq_Inr)
  from assms(1) s have c: "if is_red (tr x) then a1 = acc
         else \<exists>u v. user (tr x) = Some u \<and> upd x (dict_get d acc u) = Inr v \<and>
                    a1 = dict_upd d u (\<lambda>_. v) acc"
    unfolding res_step_def by blast
  show ?case
  proof (cases "is_red (tr x)")
    case True
    with c Cons.IH [OF l] show ?thesis by simp
  next
    case False
    with c obtain w v where w: "user (tr x) = Some w" "upd x (dict_get d acc w) = Inr v"
      "a1 = dict_upd d w (\<lambda>_. v) acc" by auto
    show ?thesis
    proof (cases "w = u")
      case True
      have "dict_get d a1 u = v" using w(3) True by (simp add: dict_get_upd)
      with Cons.IH [OF l] w True False show ?thesis by simp
    next
      case F: False
      have "dict_get d a1 u = dict_get d acc u" using w(3) F by (simp add: dict_get_upd)
      with Cons.IH [OF l] w F False show ?thesis by simp
    qed
  qed
qed

lemma res_loop_entry:
  assumes "res_step d tr upd body" "for_loop body xs [] = Inr acc" "(u, v) \<in> set acc"
  shows "for_loop upd (filter (\<lambda>x. \<not> is_red (tr x) \<and> user (tr x) = Some u) xs) d = Inr v"
    and "u \<in> set (trader_ids (map tr xs))"
proof -
  note fs = res_step_fold_step [OF assms(1)]
  from for_loop_keys [OF fs assms(2)]
  have k: "set (map fst acc) = set (trader_ids (map tr xs))" and dst: "distinct (map fst acc)"
    by simp_all
  from assms(3) have "u \<in> set (map fst acc)" by force
  with k show "u \<in> set (trader_ids (map tr xs))" by simp
  have "v = dict_get d acc u" using dict_get_member [OF dst assms(3)] by simp
  then show "for_loop upd (filter (\<lambda>x. \<not> is_red (tr x) \<and> user (tr x) = Some u) xs) d = Inr v"
    using for_loop_res [OF assms(1,2), of u] by simp
qed

lemma pnl_step_fl_res: "res_step (default_position_fl ar) id (pnl_update_fl ar) (pnl_step_fl ar)"
  unfolding res_step_def
proof (intro allI impI)
  fix t acc acc'
  assume a: "pnl_step_fl ar t acc = Inr acc'"
  show "if is_red (id t) then acc' = acc
        else \<exists>u v. user (id t) = Some u \<and>
               pnl_update_fl ar t (dict_get (default_position_fl ar) acc u) = Inr v \<and>
               acc' = dict_upd (default_position_fl ar) u (\<lambda>_. v) acc"
  proof (cases "is_red t")
    case True
    with a show ?thesis by (simp add: pnl_step_fl_def)
  next
    case False
    with a obtain u am pb oc prob where f: "user t = Some u" "amount t = Some am"
        "prob_before t = Some pb" "outcome t = Some oc"
        "ar_div ar (ar_num ar pb) (ar_num ar 100) = Inr prob"
      by (auto simp: pnl_step_fl_def bind_res_eq_Inr getitem_eq_Inr)
    define p where "p = dict_get (default_position_fl ar) acc u"
    have "\<exists>v. pnl_update_fl ar t p = Inr v \<and>
              acc' = dict_upd (default_position_fl ar) u (\<lambda>_. v) acc"
    proof (cases "oc = ''YES''")
      case True
      with a False f obtain shares ys yc where g:
        "(if ar_less ar (ar_num ar 0) prob then ar_div ar (ar_num ar am) prob
          else Inr (ar_num ar 0)) = Inr shares"
        "ar_add ar (yes_shares_fl p) shares = Inr ys"
        "ar_add ar (yes_cost_fl p) (ar_num ar am) = Inr yc"
        "acc' = dict_upd (default_position_fl ar) u
           (\<lambda>_. p\<lparr>yes_shares_fl := ys, yes_cost_fl := yc, trades_fl := trades_fl p @ [t]\<rparr>) acc"
        by (auto simp: pnl_step_fl_def Let_def bind_res_eq_Inr p_def)
      have "pnl_update_fl ar t p =
          Inr (p\<lparr>yes_shares_fl := ys, yes_cost_fl := yc, trades_fl := trades_fl p @ [t]\<rparr>)"
        using f True g(1-3) by (auto simp: pnl_update_fl_def trade_shares_fl_def split: if_splits)
      with g(4) show ?thesis by blast
    next
      case F: False
      with a False f obtain shares ns nc where g:
        "(if ar_less ar prob (ar_num ar 1)
          then bind_res (ar_sub ar (ar_num ar 1) prob) (\<lambda>q. ar_div ar (ar_num ar am) q)
          else Inr (ar_num ar 0)) = Inr shares"
        "ar_add ar (no_shares_fl p) shares = Inr ns"
        "ar_add ar (no_cost_fl p) (ar_num ar am) = Inr nc"
        "acc' = dict_upd (default_position_fl ar) u
           (\<lambda>_. p\<lparr>no_shares_fl := ns, no_cost_fl := nc, trades_fl := trades_fl p @ [t]\<rparr>) acc"
        by (auto simp: pnl_step_fl_def Let_def bind_res_eq_Inr p_def)
      have "pnl_update_fl ar t p =
          Inr (p\<lparr>no_shares_fl := ns, no_cost_fl := nc, trades_fl := trades_fl p @ [t]\<rparr>)"
        using f F g(1-3) by (auto simp: pnl_update_fl_def trade_shares_fl_def split: if_splits)
      with g(4) show ?thesis by blast
    qed
    with False f(1) show ?thesis unfolding p_def by simp
  qed
qed

lemma impact_step_fl_res: "res_step (default_impact_fl ar) id (impact_update_fl ar) (impact_step_fl ar)"
  unfolding res_step_def
proof (intro allI impI)
  fix t acc acc'
  assume a: "impact_step_fl ar t acc = Inr acc'"
  show "if is_red (id t) then acc' = acc
        else \<exists>u v. user (id t) = Some u \<and>
               impact_update_fl ar t (dict_get (default_impact_fl ar) acc u) = Inr v \<and>
               acc' = dict_upd (default_impact_fl ar) u (\<lambda>_. v) acc"
  proof (cases "is_red t")
    case True
    with a show ?thesis by (simp add: impact_step_fl_def)
  next
    case False
    with a obtain pa pb diff u where f: "prob_after t = Some pa" "prob_before t = Some pb"
        "ar_sub ar (ar_num ar pa) (ar_num ar pb) = Inr diff" "user t = Some u"
      by (auto simp: impact_step_fl_def Let_def bind_res_eq_Inr getitem_eq_Inr)
    define d where "d = dict_get (default_impact_fl ar) acc u"
    from a False f obtain total where g:
      "ar_add ar (total_price_impact_fl d) (ar_abs ar diff) = Inr total"
      "acc' = dict_upd (default_impact_fl ar) u
         (\<lambda>_. d\<lparr>total_price_impact_fl := total, impact_trades_fl := impact_trades_fl d + 1,
                 biggest_move_fl :=
                   (if ar_less ar (biggest_move_fl d) (ar_abs ar diff) then ar_abs ar diff
                    else biggest_move_fl d)\<rparr>) acc"
      by (auto simp: impact_step_fl_def Let_def bind_res_eq_Inr d_def)
    have "impact_update_fl ar t d =
        Inr (d\<lparr>total_price_impact_fl := total, impact_trades_fl := impact_trades_fl d + 1,
                 biggest_move_fl :=
                   (if ar_less ar (biggest_move_fl d) (ar_abs ar diff) then ar_abs ar diff
                    else biggest_move_fl d)\<rparr>)"
      using f g(1) by (simp add: impact_update_fl_def trade_impact_fl_def)
    with g(2) False f(4) show ?thesis unfolding d_def by auto
  qed
qed

lemma pnl_update_fl_yes:
  assumes "outcome x = Some ''YES''" "pnl_update_fl ar x p = Inr p1"
  shows "bind_res (trade_shares_fl ar x) (ar_add ar (yes_shares_fl p)) = Inr (yes_shares_fl p1)"
    and "bind_res (trade_cost_fl ar x) (ar_add ar (yes_cost_fl p)) = Inr (yes_cost_fl p1)"
    and "no_shares_fl p1 = no_shares_fl p" "no_cost_fl p1 = no_cost_fl p"
    and "trades_fl p1 = trades_fl p @ [x]"
  using assms by (auto simp: pnl_update_fl_def trade_cost_fl_def bind_res_eq_Inr)

lemma pnl_update_fl_no:
  assumes "outcome x \<noteq> Some ''YES''" "pnl_update_fl ar x p = Inr p1"
  shows "bind_res (trade_shares_fl ar x) (ar_add ar (no_shares_fl p)) = Inr (no_shares_fl p1)"
    and "bind_res (trade_cost_fl ar x) (ar_add ar (no_cost_fl p)) = Inr (no_cost_fl p1)"
    and "yes_shares_fl p1 = yes_shares_fl p" "yes_cost_fl p1 = yes_cost_fl p"
    and "trades_fl p1 = trades_fl p @ [x]"
  using assms by (auto simp: pnl_update_fl_def trade_cost_fl_def bind_res_eq_Inr)

lemma pnl_update_loop:
  assumes "for_loop (pnl_update_fl ar) xs p = Inr p'"
  shows "total_from ar (yes_shares_fl p) (trade_shares_fl ar)
           (filter (\<lambda>t. outcome t = Some ''YES'') xs) = Inr (yes_shares_fl p') \<and>
         total_from ar (no_shares_fl p) (trade_shares_fl ar)
           (filter (\<lambda>t. outcome t \<noteq> Some ''YES'') xs) = Inr (no_shares_fl p') \<and>
         total_from ar (yes_cost_fl p) (trade_cost_fl ar)
           (filter (\<lambda>t. outcome t = Some ''YES'') xs) = Inr (yes_cost_fl p') \<and>
         total_from ar (no_cost_fl p) (trade_cost_fl ar)
           (filter (\<lambda>t. outcome t \<noteq> Some ''YES'') xs) = Inr (no_cost_fl p') \<and>
         trades_fl p' = trades_fl p @ xs"
  using assms
proof (induction xs arbitrary: p)
  case Nil
  then show ?case by (simp add: total_from_def)
next
  case (Cons x xs)
  then obtain p1 where s: "pnl_update_fl ar x p = Inr p1" "for_loop (pnl_update_fl ar) xs p1 = Inr p'"
    by (auto simp: bind_res_eq_Inr)
  note ih = Cons.IH [OF s(2)]
  show ?case
  proof (cases "outcome x = Some ''YES''")
    case True
    from pnl_update_fl_yes [OF True s(1)] ih True show ?thesis
      by (simp add: total_from_def)
  next
    case False
    from pnl_update_fl_no [OF False s(1)] ih False show ?thesis
      by (simp add: total_from_def)
  qed
qed

lemma pnl_result_fl_fields:
  assumes "pnl_result_fl ar cp (u, pos) = Inr e"
  obtains yv q nv yp np pnl tc roi where
    "ar_mul ar (yes_shares_fl pos) cp = Inr yv" "ar_sub ar (ar_num ar 1) cp = Inr q"
    "ar_mul ar (no_shares_fl pos) q = Inr nv" "ar_sub ar yv (yes_cost_fl pos) = Inr yp"
    "ar_sub ar nv (no_cost_fl pos) = Inr np" "ar_add ar yp np = Inr pnl"
    "ar_add ar (yes_cost_fl pos) (no_cost_fl pos) = Inr tc"
    "(if ar_less ar (ar_num ar 0) tc
      then bind_res (ar_div ar pnl tc) (\<lambda>r. ar_mul ar r (ar_num ar 100))
      else Inr (ar_num ar 0)) = Inr roi"
    "pnl_user_fl e = u"
    "pnl_yes_cost_fl e = ar_round ar 2 (yes_cost_fl pos)"
    "pnl_no_cost_fl e = ar_round ar 2 (no_cost_fl pos)"
    "pnl_total_cost_fl e = ar_round ar 2 tc"
    "pnl_yes_value_fl e = ar_round ar 2 yv" "pnl_no_value_fl e = ar_round ar 2 nv"
    "pnl_estimated_pnl_fl e = ar_round ar 2 pnl" "pnl_roi_pct_fl e = ar_round ar 1 roi"
    "pnl_trade_count_fl e = length (trades_fl pos)"
    "pnl_position_fl e =
       (if ar_less ar (no_cost_fl pos) (yes_cost_fl pos) then ''LONG'' else ''SHORT'')"
proof -
  from assms obtain yv yp q nv np pnl tc roi where
    v: "ar_mul ar (yes_shares_fl pos) cp = Inr yv" "ar_sub ar yv (yes_cost_fl pos) = Inr yp"
      "ar_sub ar (ar_num ar 1) cp = Inr q" "ar_mul ar (no_shares_fl pos) q = Inr nv"
      "ar_sub ar nv (no_cost_fl pos) = Inr np" "ar_add ar yp np = Inr pnl"
      "ar_add ar (yes_cost_fl pos) (no_cost_fl pos) = Inr tc"
      "(if ar_less ar (ar_num ar 0) tc
        then bind_res (ar_div ar pnl tc) (\<lambda>r. ar_mul ar r (ar_num ar 100))
        else Inr (ar_num ar 0)) = Inr roi"
    and e: "e = \<lparr>pnl_user_fl = u,
             pnl_yes_cost_fl = ar_round ar 2 (yes_cost_fl pos),
             pnl_no_cost_fl = ar_round ar 2 (no_cost_fl pos),
             pnl_total_cost_fl = ar_round ar 2 tc,
             pnl_yes_value_fl = ar_round ar 2 yv,
             pnl_no_value_fl = ar_round ar 2 nv,
             pnl_estimated_pnl_fl = ar_round ar 2 pnl,
             pnl_roi_pct_fl = ar_round ar 1 roi,
             pnl_trade_count_fl = length (trades_fl pos),
             pnl_position_fl =
               (if ar_less ar (no_cost_fl pos) (yes_cost_fl pos) then ''LONG''
                else ''SHORT'')\<rparr>"
    unfolding pnl_result_fl_def Let_def bind_res_eq_Inr by fastforce
  show ?thesis
    by (rule that [OF v(1) v(3) v(4) v(2) v(5) v(6) v(7) v(8)]) (simp_all add: e)
qed

lemma estimate_pnl_fl_entry:
  assumes "estimate_pnl_fl ar ts cp = Inr rs" "e \<in> set rs"
  obtains pos where
    "for_loop (pnl_update_fl ar) (user_trades (pnl_user_fl e) ts) (default_position_fl ar) = Inr pos"
    "pnl_result_fl ar cp (pnl_user_fl e, pos) = Inr e"
    "pnl_user_fl e \<in> set (trader_ids ts)"
proof -
  from assms(1) obtain tp results where
    l: "for_loop (pnl_step_fl ar) ts [] = Inr tp" and
    m: "map_res (pnl_result_fl ar cp) tp = Inr results" and
    r: "rs = sort_desc (ar_less ar) pnl_estimated_pnl_fl results"
    by (auto simp: estimate_pnl_fl_def bind_res_eq_Inr)
  from assms(2) r have "e \<in> set results" by (simp add: set_sort_desc)
  with list_all2_member [OF map_res_Inr [OF m]]
  obtain up where up: "up \<in> set tp" "pnl_result_fl ar cp up = Inr e" by blast
  obtain u pos where upd: "up = (u, pos)" by (cases up)
  have u: "pnl_user_fl e = u"
    using up(2) upd by (auto elim: pnl_result_fl_fields)
  have mem: "(pnl_user_fl e, pos) \<in> set tp" using up(1) u upd by simp
  from res_loop_entry [OF pnl_step_fl_res l mem]
  have "for_loop (pnl_update_fl ar) (user_trades (pnl_user_fl e) ts) (default_position_fl ar) = Inr pos"
    and "pnl_user_fl e \<in> set (trader_ids ts)"
    by (simp_all add: user_trades_def)
  with up(2) upd u that show ?thesis by simp
qed

lemma two_traders_estimate_fl: "estimate_pnl_fl exact_arith two_traders (1 / 2) = Inr two_traders_pnl_fl"
  by code_simp

lemma pnl_step_fl_update:
  assumes "\<not> is_red t" "user t = Some w" "amount t = Some a" "prob_before t = Some pb"
    "outcome t = Some oc"
  shows "pnl_step_fl ar t tp =
           bind_res (pnl_update_fl ar t (dict_get (default_position_fl ar) tp w))
             (\<lambda>p. Inr (dict_upd (default_position_fl ar) w (\<lambda>_. p) tp))"
proof (cases "oc = ''YES''")
  case True
  with assms show ?thesis
    by (simp add: pnl_step_fl_def pnl_update_fl_def trade_shares_fl_def Let_def bind_res_def
        split: sum.splits)
next
  case False
  with assms show ?thesis
    by (simp add: pnl_step_fl_def pnl_update_fl_def trade_shares_fl_def Let_def bind_res_def
        split: sum.splits)
qed

text \<open>
  C1. Whatever the arithmetic of the interpreter, every record of \<open>estimate_pnl\<close> belongs to a
  trader of the collection and holds, rounded by \<open>round\<close> to 2 decimals (1 for the ROI), the
  quantities of the specification computed in that arithmetic over the trader's
  non-redemption trades in their order: the running totals of the shares and of the amounts
  of the YES trades and of the other trades, where the shares of a trade are
  \<open>amount / prob\<close> for YES when \<open>prob > 0\<close> (else 0) and \<open>amount / (1 - prob)\<close> for NO when
  \<open>prob < 1\<close> (else 0) with \<open>prob = prob_before / 100\<close>; \<open>yes_value = yes_shares * current_prob\<close>
  and \<open>no_value = no_shares * (1 - current_prob)\<close>; \<open>estimated_pnl = (yes_value - yes_cost) +
  (no_value - no_cost)\<close>; and \<open>roi_pct = estimated_pnl / total_cost * 100\<close> when
  \<open>total_cost > 0\<close>, else 0. The loop body applies exactly this update to the position of the
  trade's user. 100 spent on YES at \<open>prob_before = 25\<close> (0.25) buys 400 shares, and at the
  reference probability one half gives value 200, P&L 100 and ROI 100.
\<close>

theorem estimate_pnl_formulas:
  "(estimate_pnl_fl ar ts cp = Inr rs \<and> e \<in> set rs \<longrightarrow>
      (\<exists>yes_shares no_shares yes_cost no_cost yes_value q no_value yes_pnl no_pnl
         estimated_pnl total_cost roi.
         total_from ar (ar_num ar 0) (trade_shares_fl ar) (yes_trades (pnl_user_fl e) ts)
           = Inr yes_shares \<and>
         total_from ar (ar_num ar 0) (trade_shares_fl ar) (no_trades (pnl_user_fl e) ts)
           = Inr no_shares \<and>
         total_from ar (ar_num ar 0) (trade_cost_fl ar) (yes_trades (pnl_user_fl e) ts)
           = Inr yes_cost \<and>
         total_from ar (ar_num ar 0) (trade_cost_fl ar) (no_trades (pnl_user_fl e) ts)
           = Inr no_cost \<and>
         ar_mul ar yes_shares cp = Inr yes_value \<and>
         ar_sub ar (ar_num ar 1) cp = Inr q \<and>
         ar_mul ar no_shares q = Inr no_value \<and>
         ar_sub ar yes_value yes_cost = Inr yes_pnl \<and>
         ar_sub ar no_value no_cost = Inr no_pnl \<and>
         ar_add ar yes_pnl no_pnl = Inr estimated_pnl \<and>
         ar_add ar yes_cost no_cost = Inr total_cost \<and>
         (if ar_less ar (ar_num ar 0) total_cost
          then bind_res (ar_div ar estimated_pnl total_cost) (\<lambda>r. ar_mul ar r (ar_num ar 100))
          else Inr (ar_num ar 0)) = Inr roi \<and>
         pnl_user_fl e \<in> set (trader_ids ts) \<and>
         pnl_yes_cost_fl e = ar_round ar 2 yes_cost \<and>
         pnl_no_cost_fl e = ar_round ar 2 no_cost \<and>
         pnl_total_cost_fl e = ar_round ar 2 total_cost \<and>
         pnl_yes_value_fl e = ar_round ar 2 yes_value \<and>
         pnl_no_value_fl e = ar_round ar 2 no_value \<and>
         pnl_estimated_pnl_fl e = ar_round ar 2 estimated_pnl \<and>
         pnl_roi_pct_fl e = ar_round ar 1 roi)) \<and>
   (\<not> is_red t \<and> user t = Some w \<and> amount t = Some a \<and> prob_before t = Some pb \<and>
    outcome t = Some oc \<longrightarrow>
      pnl_step_fl ar t tp =
        bind_res (pnl_update_fl ar t (dict_get (default_position_fl ar) tp w))
          (\<lambda>p. Inr (dict_upd (default_position_fl ar) w (\<lambda>_. p) tp))) \<and>
   for_loop (pnl_step_fl exact_arith) [mk_trade v 100 ''YES'' 25 pa tstamp False] [] =
     Inr [(v, \<lparr>yes_shares_fl = 400, no_shares_fl = 0, yes_cost_fl = 100, no_cost_fl = 0,
               trades_fl = [mk_trade v 100 ''YES'' 25 pa tstamp False]\<rparr>)] \<and>
   estimate_pnl_fl exact_arith [mk_trade v 100 ''YES'' 25 pa tstamp False] (1 / 2) =
     Inr [\<lparr>pnl_user_fl = v, pnl_yes_cost_fl = 100, pnl_no_cost_fl = 0, pnl_total_cost_fl = 100,
           pnl_yes_value_fl = 200, pnl_no_value_fl = 0, pnl_estimated_pnl_fl = 100,
           pnl_roi_pct_fl = 100, pnl_trade_count_fl = 1, pnl_position_fl = ''LONG''\<rparr>] \<and>
   estimate_pnl [mk_trade v 100 ''YES'' 25 pa tstamp False] (1 / 2) =
     Inr [\<lparr>pnl_user = v, pnl_yes_cost = 100, pnl_no_cost = 0, pnl_total_cost = 100,
           pnl_yes_value = 200, pnl_no_value = 0, pnl_estimated_pnl = 100, pnl_roi_pct = 100,
           pnl_trade_count = 1, pnl_position = ''LONG''\<rparr>]"
proof -
  have p1: "\<exists>yes_shares no_shares yes_cost no_cost yes_value q no_value yes_pnl no_pnl
         estimated_pnl total_cost roi.
         total_from ar (ar_num ar 0) (trade_shares_fl ar) (yes_trades (pnl_user_fl e) ts)
           = Inr yes_shares \<and>
         total_from ar (ar_num ar 0) (trade_shares_fl ar) (no_trades (pnl_user_fl e) ts)
           = Inr no_shares \<and>
         total_from ar (ar_num ar 0) (trade_cost_fl ar) (yes_trades (pnl_user_fl e) ts)
           = Inr yes_cost \<and>
         total_from ar (ar_num ar 0) (trade_cost_fl ar) (no_trades (pnl_user_fl e) ts)
           = Inr no_cost \<and>
         ar_mul ar yes_shares cp = Inr yes_value \<and>
         ar_sub ar (ar_num ar 1) cp = Inr q \<and>
         ar_mul ar no_shares q = Inr no_value \<and>
         ar_sub ar yes_value yes_cost = Inr yes_pnl \<and>
         ar_sub ar no_value no_cost = Inr no_pnl \<and>
         ar_add ar yes_pnl no_pnl = Inr estimated_pnl \<and>
         ar_add ar yes_cost no_cost = Inr total_cost \<and>
         (if ar_less ar (ar_num ar 0) total_cost
          then bind_res (ar_div ar estimated_pnl total_cost) (\<lambda>r. ar_mul ar r (ar_num ar 100))
          else Inr (ar_num ar 0)) = Inr roi \<and>
         pnl_user_fl e \<in> set (trader_ids ts) \<and>
         pnl_yes_cost_fl e = ar_round ar 2 yes_cost \<and>
         pnl_no_cost_fl e = ar_round ar 2 no_cost \<and>
         pnl_total_cost_fl e = ar_round ar 2 total_cost \<and>
         pnl_yes_value_fl e = ar_round ar 2 yes_value \<and>
         pnl_no_value_fl e = ar_round ar 2 no_value \<and>
         pnl_estimated_pnl_fl e = ar_round ar 2 estimated_pnl \<and>
         pnl_roi_pct_fl e = ar_round ar 1 roi"
    if h: "estimate_pnl_fl ar ts cp = Inr rs \<and> e \<in> set rs"
  proof -
    from h obtain pos where
      l: "for_loop (pnl_update_fl ar) (user_trades (pnl_user_fl e) ts) (default_position_fl ar) = Inr pos"
      and r: "pnl_result_fl ar cp (pnl_user_fl e, pos) = Inr e"
      and t: "pnl_user_fl e \<in> set (trader_ids ts)"
      by (auto elim: estimate_pnl_fl_entry)
    from pnl_update_loop [OF l]
    have tot: "total_from ar (ar_num ar 0) (trade_shares_fl ar) (yes_trades (pnl_user_fl e) ts)
           = Inr (yes_shares_fl pos)"
      "total_from ar (ar_num ar 0) (trade_shares_fl ar) (no_trades (pnl_user_fl e) ts)
           = Inr (no_shares_fl pos)"
      "total_from ar (ar_num ar 0) (trade_cost_fl ar) (yes_trades (pnl_user_fl e) ts)
           = Inr (yes_cost_fl pos)"
      "total_from ar (ar_num ar 0) (trade_cost_fl ar) (no_trades (pnl_user_fl e) ts)
           = Inr (no_cost_fl pos)"
      by (simp_all add: default_position_fl_def yes_trades_def no_trades_def)
    from r obtain yv q nv yp np pnl tc roi where f:
      "ar_mul ar (yes_shares_fl pos) cp = Inr yv" "ar_sub ar (ar_num ar 1) cp = Inr q"
      "ar_mul ar (no_shares_fl pos) q = Inr nv" "ar_sub ar yv (yes_cost_fl pos) = Inr yp"
      "ar_sub ar nv (no_cost_fl pos) = Inr np" "ar_add ar yp np = Inr pnl"
      "ar_add ar (yes_cost_fl pos) (no_cost_fl pos) = Inr tc"
      "(if ar_less ar (ar_num ar 0) tc
        then bind_res (ar_div ar pnl tc) (\<lambda>r. ar_mul ar r (ar_num ar 100))
        else Inr (ar_num ar 0)) = Inr roi"
      "pnl_yes_cost_fl e = ar_round ar 2 (yes_cost_fl pos)"
      "pnl_no_cost_fl e = ar_round ar 2 (no_cost_fl pos)"
      "pnl_total_cost_fl e = ar_round ar 2 tc"
      "pnl_yes_value_fl e = ar_round ar 2 yv" "pnl_no_value_fl e = ar_round ar 2 nv"
      "pnl_estimated_pnl_fl e = ar_round ar 2 pnl" "pnl_roi_pct_fl e = ar_round ar 1 roi"
      by (rule pnl_result_fl_fields)
    show ?thesis
      apply (rule exI [of _ "yes_shares_fl pos"], rule exI [of _ "no_shares_fl pos"])
      apply (rule exI [of _ "yes_cost_fl pos"], rule exI [of _ "no_cost_fl pos"])
      apply (rule exI [of _ yv], rule exI [of _ q], rule exI [of _ nv], rule exI [of _ yp])
      apply (rule exI [of _ np], rule exI [of _ pnl], rule exI [of _ tc], rule exI [of _ roi])
      using tot f t by simp
  qed
  have p2: "pnl_step_fl ar t tp =
        bind_res (pnl_update_fl ar t (dict_get (default_position_fl ar) tp w))
          (\<lambda>p. Inr (dict_upd (default_position_fl ar) w (\<lambda>_. p) tp))"
    if "\<not> is_red t \<and> user t = Some w \<and> amount t = Some a \<and> prob_before t = Some pb \<and>
        outcome t = Some oc"
    using that pnl_step_fl_update [of t w a pb oc ar tp] by simp
  have p3: "for_loop (pnl_step_fl exact_arith) [mk_trade v 100 ''YES'' 25 pa tstamp False] [] =
     Inr [(v, \<lparr>yes_shares_fl = 400, no_shares_fl = 0, yes_cost_fl = 100, no_cost_fl = 0,
               trades_fl = [mk_trade v 100 ''YES'' 25 pa tstamp False]\<rparr>)]"
    by (simp add: mk_trade_def pnl_step_fl_def is_red_def py_div_def default_position_fl_def
        exact_arith_def Let_def)
  have p4: "estimate_pnl_fl exact_arith [mk_trade v 100 ''YES'' 25 pa tstamp False] (1 / 2) =
     Inr [\<lparr>pnl_user_fl = v, pnl_yes_cost_fl = 100, pnl_no_cost_fl = 0, pnl_total_cost_fl = 100,
           pnl_yes_value_fl = 200, pnl_no_value_fl = 0, pnl_estimated_pnl_fl = 100,
           pnl_roi_pct_fl = 100, pnl_trade_count_fl = 1, pnl_position_fl = ''LONG''\<rparr>]"
    by (simp add: estimate_pnl_fl_def mk_trade_def pnl_step_fl_def is_red_def py_div_def
        default_position_fl_def exact_arith_def pnl_result_fl_def Let_def py_round_def
        sort_desc_def)
  from p1 p2 p3 p4 estimate_pnl_single [of v pa tstamp] show ?thesis by blast
qed

theorem estimate_pnl_formulas_witness:
  "estimate_pnl_fl exact_arith two_traders (1 / 2) = Inr two_traders_pnl_fl \<and>
   two_traders_pnl_fl ! 1 \<in> set two_traders_pnl_fl \<and>
   pnl_user_fl (two_traders_pnl_fl ! 1) \<in> set (trader_ids two_traders) \<and>
   \<not> is_red (two_traders ! 1) \<and> user (two_traders ! 1) = Some ''bob'' \<and>
   amount (two_traders ! 1) = Some 10 \<and> prob_before (two_traders ! 1) = Some 30 \<and>
   outcome (two_traders ! 1) = Some ''NO'' \<and>
   pnl_step_fl exact_arith (two_traders ! 1) [] =
     Inr [(''bob'', \<lparr>yes_shares_fl = 0, no_shares_fl = 100 / 7, yes_cost_fl = 0, no_cost_fl = 10,
                     trades_fl = [two_traders ! 1]\<rparr>)]"
proof -
  have h: "two_traders_pnl_fl ! 1 \<in> set two_traders_pnl_fl"
    by (simp add: two_traders_pnl_fl_def)
  have g: "\<not> is_red (two_traders ! 1)" "user (two_traders ! 1) = Some ''bob''"
    "amount (two_traders ! 1) = Some 10" "prob_before (two_traders ! 1) = Some 30"
    "outcome (two_traders ! 1) = Some ''NO''"
    by (simp_all add: two_traders_def mk_trade_def is_red_def)
  note inst = estimate_pnl_formulas [where ar = exact_arith and ts = two_traders and cp = "1 / 2"
      and rs = two_traders_pnl_fl and e = "two_traders_pnl_fl ! 1" and t = "two_traders ! 1"
      and w = "''bob''" and a = 10 and pb = 30 and oc = "''NO''" and tp = "[]"
      and v = "''ann''" and pa = 0 and tstamp = 0]
  from inst two_traders_estimate_fl h
  have m: "pnl_user_fl (two_traders_pnl_fl ! 1) \<in> set (trader_ids two_traders)"
    by blast
  from inst g have "pnl_step_fl exact_arith (two_traders ! 1) [] =
        bind_res (pnl_update_fl exact_arith (two_traders ! 1)
                    (dict_get (default_position_fl exact_arith) [] ''bob''))
          (\<lambda>p. Inr (dict_upd (default_position_fl exact_arith) ''bob'' (\<lambda>_. p) []))"
    by blast
  then have s: "pnl_step_fl exact_arith (two_traders ! 1) [] =
     Inr [(''bob'', \<lparr>yes_shares_fl = 0, no_shares_fl = 100 / 7, yes_cost_fl = 0, no_cost_fl = 10,
                     trades_fl = [two_traders ! 1]\<rparr>)]"
    using g
    by (simp add: pnl_update_fl_def trade_shares_fl_def default_position_fl_def exact_arith_def
        py_div_def)
  from two_traders_estimate_fl h m g s show ?thesis by simp
qed

lemma impact_market_fl_eval: "analyze_market_impact_fl exact_arith impact_market = Inr impact_market_fl"
  by code_simp

lemma impact_update_loop:
  assumes "for_loop (impact_update_fl ar) xs d = Inr d'"
  shows "total_from ar (total_price_impact_fl d) (trade_impact_fl ar) xs
           = Inr (total_price_impact_fl d') \<and>
         largest_from ar (biggest_move_fl d) (trade_impact_fl ar) xs = Inr (biggest_move_fl d') \<and>
         impact_trades_fl d' = impact_trades_fl d + length xs"
  using assms
proof (induction xs arbitrary: d)
  case Nil
  then show ?case by (simp add: total_from_def largest_from_def)
next
  case (Cons x xs)
  then obtain d1 where s: "impact_update_fl ar x d = Inr d1"
      "for_loop (impact_update_fl ar) xs d1 = Inr d'"
    by (auto simp: bind_res_eq_Inr)
  from s(1) obtain imp total where u: "trade_impact_fl ar x = Inr imp"
      "ar_add ar (total_price_impact_fl d) imp = Inr total"
      "d1 = d\<lparr>total_price_impact_fl := total, impact_trades_fl := impact_trades_fl d + 1,
              biggest_move_fl :=
                (if ar_less ar (biggest_move_fl d) imp then imp else biggest_move_fl d)\<rparr>"
    by (auto simp: impact_update_fl_def bind_res_eq_Inr)
  from Cons.IH [OF s(2)] u show ?case
    by (simp add: total_from_def largest_from_def)
qed

lemma impact_result_fl_fields:
  assumes "impact_result_fl ar (u, d) = Inr e"
  shows "mi_user_fl e = u"
    "mi_total_impact_pct_fl e = ar_round ar 2 (total_price_impact_fl d)"
    "mi_biggest_move_pct_fl e = ar_round ar 2 (biggest_move_fl d)"
    "mi_trade_count_fl e = impact_trades_fl d"
    "\<exists>avg. (if 0 < impact_trades_fl d
            then ar_div ar (total_price_impact_fl d) (ar_num ar (of_nat (impact_trades_fl d)))
            else Inr (ar_num ar 0)) = Inr avg \<and>
           mi_avg_impact_pct_fl e = ar_round ar 2 avg"
  using assms
  by (auto simp: impact_result_fl_def Let_def bind_res_eq_Inr split: if_splits)

lemma analyze_market_impact_fl_entry:
  assumes "analyze_market_impact_fl ar ts = Inr rs" "e \<in> set rs"
  obtains d where
    "for_loop (impact_update_fl ar) (user_trades (mi_user_fl e) ts) (default_impact_fl ar) = Inr d"
    "impact_result_fl ar (mi_user_fl e, d) = Inr e"
    "mi_user_fl e \<in> set (trader_ids ts)"
proof -
  from assms(1) obtain ti results where
    l: "for_loop (impact_step_fl ar) ts [] = Inr ti" and
    m: "map_res (impact_result_fl ar) ti = Inr results" and
    r: "rs = sort_desc (ar_less ar) mi_total_impact_pct_fl results"
    by (auto simp: analyze_market_impact_fl_def bind_res_eq_Inr)
  from assms(2) r have "e \<in> set results" by (simp add: set_sort_desc)
  with list_all2_member [OF map_res_Inr [OF m]]
  obtain ud where ud: "ud \<in> set ti" "impact_result_fl ar ud = Inr e" by blast
  obtain u d where udd: "ud = (u, d)" by (cases ud)
  have u: "mi_user_fl e = u"
    using impact_result_fl_fields(1) [of ar u d e] ud(2) udd by simp
  have mem: "(mi_user_fl e, d) \<in> set ti" using ud(1) u udd by simp
  from res_loop_entry [OF impact_step_fl_res l mem]
  have "for_loop (impact_update_fl ar) (user_trades (mi_user_fl e) ts) (default_impact_fl ar) = Inr d"
    and "mi_user_fl e \<in> set (trader_ids ts)"
    by (simp_all add: user_trades_def)
  with ud(2) udd u that show ?thesis by simp
qed

lemma impact_market_positions:
  "analyze_position_changes impact_market =
     Inr [\<lparr>pc_user = ''ann'', pc_trade_count = 2, pc_flips = 1, pc_is_flipper = False,
           pc_avg_yes_entry_prob = 40, pc_avg_no_entry_prob = 45, pc_first_position = ''YES'',
           pc_final_position = ''NO''\<rparr>]"
  by code_simp

text \<open>
  C6, amended. Only the Position Reconstructor rescales a probability: it prices a trade at
  \<open>prob_before / 100\<close>. The Market-Impact Analyzer works on \<open>prob_before\<close> and \<open>prob_after\<close> as
  they are supplied: whatever the arithmetic of the interpreter, a trader's
  \<open>total_impact_pct\<close> is the running total, \<open>biggest_move_pct\<close> the running maximum and
  \<open>avg_impact_pct\<close> the total divided by the number of trades, each rounded by \<open>round\<close> to 2
  decimals, of \<open>abs(prob_after - prob_before)\<close> over the trader's non-redemption trades in
  their order, in the units of the input. The flip detector records \<open>prob_before\<close> as it is
  supplied, so its average entry prices are on the input scale, and the loops of the Timing
  Analyzer and of the classifier read no probability. Trades (40, 45) and (45, 30) give 20
  and 15; the same trades supplied as (0.40, 0.45) and (0.45, 0.30) give 0.20 and 0.15.
\<close>

theorem impact_in_input_units:
  "(analyze_market_impact_fl ar ts = Inr rs \<and> e \<in> set rs \<longrightarrow>
      (\<exists>total biggest avg.
         user_trades (mi_user_fl e) ts \<noteq> [] \<and>
         total_from ar (ar_num ar 0) (trade_impact_fl ar) (user_trades (mi_user_fl e) ts)
           = Inr total \<and>
         largest_from ar (ar_num ar 0) (trade_impact_fl ar) (user_trades (mi_user_fl e) ts)
           = Inr biggest \<and>
         ar_div ar total (ar_num ar (of_nat (length (user_trades (mi_user_fl e) ts)))) = Inr avg \<and>
         mi_total_impact_pct_fl e = ar_round ar 2 total \<and>
         mi_biggest_move_pct_fl e = ar_round ar 2 biggest \<and>
         mi_avg_impact_pct_fl e = ar_round ar 2 avg \<and>
         mi_trade_count_fl e = length (user_trades (mi_user_fl e) ts))) \<and>
   trade_impact_fl ar (mk_trade u a oc pb pa k r) =
     bind_res (ar_sub ar (ar_num ar pa) (ar_num ar pb)) (\<lambda>diff. Inr (ar_abs ar diff)) \<and>
   impact_step_fl ar (mk_trade u a oc pb pa k False) [] =
     bind_res (ar_sub ar (ar_num ar pa) (ar_num ar pb)) (\<lambda>diff.
     bind_res (ar_add ar (ar_num ar 0) (ar_abs ar diff)) (\<lambda>total.
       Inr [(u, \<lparr>total_price_impact_fl = total, impact_trades_fl = 1,
                 biggest_move_fl =
                   (if ar_less ar (ar_num ar 0) (ar_abs ar diff) then ar_abs ar diff
                    else ar_num ar 0)\<rparr>)])) \<and>
   pnl_step_fl ar (mk_trade u a ''YES'' pb pa k False) [] =
     bind_res (ar_div ar (ar_num ar pb) (ar_num ar 100)) (\<lambda>prob.
     bind_res (if ar_less ar (ar_num ar 0) prob then ar_div ar (ar_num ar a) prob
               else Inr (ar_num ar 0)) (\<lambda>shares.
     bind_res (ar_add ar (ar_num ar 0) shares) (\<lambda>ys.
     bind_res (ar_add ar (ar_num ar 0) (ar_num ar a)) (\<lambda>yc.
       Inr [(u, \<lparr>yes_shares_fl = ys, no_shares_fl = ar_num ar 0, yes_cost_fl = yc,
                 no_cost_fl = ar_num ar 0,
                 trades_fl = [mk_trade u a ''YES'' pb pa k False]\<rparr>)])))) \<and>
   history_step (mk_trade u a oc pb pa k False) th =
     Inr (dict_upd [] u
       (\<lambda>h. h @ [\<lparr>h_outcome = oc, h_amount = a, h_date = ''2024-01-01'', h_prob = pb\<rparr>]) th) \<and>
   timing_step q1 q3 (i, t\<lparr>prob_before := x, prob_after := y\<rparr>) tt = timing_step q1 q3 (i, t) tt \<and>
   stats_step (t\<lparr>prob_before := x, prob_after := y\<rparr>) st = stats_step t st \<and>
   analyze_position_changes impact_market =
     Inr [\<lparr>pc_user = ''ann'', pc_trade_count = 2, pc_flips = 1, pc_is_flipper = False,
           pc_avg_yes_entry_prob = 40, pc_avg_no_entry_prob = 45, pc_first_position = ''YES'',
           pc_final_position = ''NO''\<rparr>] \<and>
   analyze_market_impact
     [mk_trade u a ''YES'' 40 45 1 False, mk_trade u a' ''NO'' 45 30 2 False] =
     Inr [\<lparr>mi_user = u, mi_total_impact_pct = 20, mi_avg_impact_pct = 10,
           mi_biggest_move_pct = 15, mi_trade_count = 2\<rparr>] \<and>
   analyze_market_impact
     [mk_trade u a ''YES'' (40 / 100) (45 / 100) 1 False,
      mk_trade u a' ''NO'' (45 / 100) (30 / 100) 2 False] =
     Inr [\<lparr>mi_user = u, mi_total_impact_pct = 20 / 100, mi_avg_impact_pct = 10 / 100,
           mi_biggest_move_pct = 15 / 100, mi_trade_count = 2\<rparr>]"
proof -
  have p1: "\<exists>total biggest avg.
         user_trades (mi_user_fl e) ts \<noteq> [] \<and>
         total_from ar (ar_num ar 0) (trade_impact_fl ar) (user_trades (mi_user_fl e) ts)
           = Inr total \<and>
         largest_from ar (ar_num ar 0) (trade_impact_fl ar) (user_trades (mi_user_fl e) ts)
           = Inr biggest \<and>
         ar_div ar total (ar_num ar (of_nat (length (user_trades (mi_user_fl e) ts)))) = Inr avg \<and>
         mi_total_impact_pct_fl e = ar_round ar 2 total \<and>
         mi_biggest_move_pct_fl e = ar_round ar 2 biggest \<and>
         mi_avg_impact_pct_fl e = ar_round ar 2 avg \<and>
         mi_trade_count_fl e = length (user_trades (mi_user_fl e) ts)"
    if h: "analyze_market_impact_fl ar ts = Inr rs \<and> e \<in> set rs"
  proof -
    from h obtain d where
      l: "for_loop (impact_update_fl ar) (user_trades (mi_user_fl e) ts) (default_impact_fl ar) = Inr d"
      and r: "impact_result_fl ar (mi_user_fl e, d) = Inr e"
      and t: "mi_user_fl e \<in> set (trader_ids ts)"
      by (auto elim: analyze_market_impact_fl_entry)
    have ne: "user_trades (mi_user_fl e) ts \<noteq> []" using user_trades_nonempty [OF t] .
    from impact_update_loop [OF l]
    have tot: "total_from ar (ar_num ar 0) (trade_impact_fl ar) (user_trades (mi_user_fl e) ts)
           = Inr (total_price_impact_fl d)"
      "largest_from ar (ar_num ar 0) (trade_impact_fl ar) (user_trades (mi_user_fl e) ts)
           = Inr (biggest_move_fl d)"
      "impact_trades_fl d = length (user_trades (mi_user_fl e) ts)"
      by (simp_all add: default_impact_fl_def)
    from tot(3) ne have pos: "0 < impact_trades_fl d" by simp
    from impact_result_fl_fields(5) [OF r] pos obtain avg where
      avg: "ar_div ar (total_price_impact_fl d) (ar_num ar (of_nat (impact_trades_fl d))) = Inr avg"
        "mi_avg_impact_pct_fl e = ar_round ar 2 avg"
      by auto
    show ?thesis
      apply (rule exI [of _ "total_price_impact_fl d"], rule exI [of _ "biggest_move_fl d"])
      apply (rule exI [of _ avg])
      using ne tot avg impact_result_fl_fields(2-4) [OF r] by simp
  qed
  have p2: "trade_impact_fl ar (mk_trade u a oc pb pa k r) =
     bind_res (ar_sub ar (ar_num ar pa) (ar_num ar pb)) (\<lambda>diff. Inr (ar_abs ar diff))"
    by (simp add: trade_impact_fl_def mk_trade_def)
  have p3: "impact_step_fl ar (mk_trade u a oc pb pa k False) [] =
     bind_res (ar_sub ar (ar_num ar pa) (ar_num ar pb)) (\<lambda>diff.
     bind_res (ar_add ar (ar_num ar 0) (ar_abs ar diff)) (\<lambda>total.
       Inr [(u, \<lparr>total_price_impact_fl = total, impact_trades_fl = 1,
                 biggest_move_fl =
                   (if ar_less ar (ar_num ar 0) (ar_abs ar diff) then ar_abs ar diff
                    else ar_num ar 0)\<rparr>)]))"
    by (simp add: impact_step_fl_def mk_trade_def is_red_def default_impact_fl_def Let_def
        bind_res_def split: sum.splits)
  have p4: "pnl_step_fl ar (mk_trade u a ''YES'' pb pa k False) [] =
     bind_res (ar_div ar (ar_num ar pb) (ar_num ar 100)) (\<lambda>prob.
     bind_res (if ar_less ar (ar_num ar 0) prob then ar_div ar (ar_num ar a) prob
               else Inr (ar_num ar 0)) (\<lambda>shares.
     bind_res (ar_add ar (ar_num ar 0) shares) (\<lambda>ys.
     bind_res (ar_add ar (ar_num ar 0) (ar_num ar a)) (\<lambda>yc.
       Inr [(u, \<lparr>yes_shares_fl = ys, no_shares_fl = ar_num ar 0, yes_cost_fl = yc,
                 no_cost_fl = ar_num ar 0,
                 trades_fl = [mk_trade u a ''YES'' pb pa k False]\<rparr>)]))))"
    by (simp add: pnl_step_fl_def mk_trade_def is_red_def default_position_fl_def Let_def
        bind_res_def split: sum.splits)
  have p5: "history_step (mk_trade u a oc pb pa k False) th =
     Inr (dict_upd [] u
       (\<lambda>h. h @ [\<lparr>h_outcome = oc, h_amount = a, h_date = ''2024-01-01'', h_prob = pb\<rparr>]) th)"
    by (simp add: history_step_def mk_trade_def is_red_def)
  have p6: "timing_step q1 q3 (i, t\<lparr>prob_before := x, prob_after := y\<rparr>) tt = timing_step q1 q3 (i, t) tt"
    by (simp add: timing_step_def is_red_def)
  have p7: "stats_step (t\<lparr>prob_before := x, prob_after := y\<rparr>) st = stats_step t st"
    by (simp add: stats_step_def is_red_def)
  have p8: "analyze_market_impact
     [mk_trade u a ''YES'' 40 45 1 False, mk_trade u a' ''NO'' 45 30 2 False] =
     Inr [\<lparr>mi_user = u, mi_total_impact_pct = 20, mi_avg_impact_pct = 10,
           mi_biggest_move_pct = 15, mi_trade_count = 2\<rparr>]"
    by (simp add: analyze_market_impact_def mk_trade_def impact_step_def is_red_def
        default_impact_def impact_result_def py_div_def Let_def py_round_def)
  have p9: "analyze_market_impact
     [mk_trade u a ''YES'' (40 / 100) (45 / 100) 1 False,
      mk_trade u a' ''NO'' (45 / 100) (30 / 100) 2 False] =
     Inr [\<lparr>mi_user = u, mi_total_impact_pct = 20 / 100, mi_avg_impact_pct = 10 / 100,
           mi_biggest_move_pct = 15 / 100, mi_trade_count = 2\<rparr>]"
    by (simp add: analyze_market_impact_def mk_trade_def impact_step_def is_red_def
        default_impact_def impact_result_def py_div_def Let_def py_round_def)
  from p1 p2 p3 p4 p5 p6 p7 p8 p9 impact_market_positions show ?thesis by blast
qed

theorem impact_in_input_units_witness:
  "analyze_market_impact_fl exact_arith impact_market = Inr impact_market_fl \<and>
   impact_market_fl ! 0 \<in> set impact_market_fl \<and>
   user_trades (mi_user_fl (impact_market_fl ! 0)) impact_market \<noteq> [] \<and>
   mi_trade_count_fl (impact_market_fl ! 0) =
     length (user_trades (mi_user_fl (impact_market_fl ! 0)) impact_market)"
proof -
  have h: "impact_market_fl ! 0 \<in> set impact_market_fl"
    by (simp add: impact_market_fl_def)
  note inst = impact_in_input_units [where ar = exact_arith and ts = impact_market
      and rs = impact_market_fl and e = "impact_market_fl ! 0" and u = "''ann''" and a = 0
      and a' = 0 and oc = "''YES''" and pb = 0 and pa = 0 and k = 0 and r = False
      and th = "[]" and ?q1.0 = 0 and ?q3.0 = 0 and i = 0 and t = "hd impact_market"
      and x = None and y = None and tt = "[]" and st = "[]"]
  from inst impact_market_fl_eval h
  have "user_trades (mi_user_fl (impact_market_fl ! 0)) impact_market \<noteq> [] \<and>
        mi_trade_count_fl (impact_market_fl ! 0) =
          length (user_trades (mi_user_fl (impact_market_fl ! 0)) impact_market)"
    by blast
  with impact_market_fl_eval h show ?thesis by simp
qed

lemma for_loop_held:
  assumes "for_loop body xs acc = Inr acc'" "\<And>x a a'. body x a = Inr a' \<Longrightarrow> ok x"
  shows "list_all ok xs"
  unfolding list_all_iff
proof
  fix x assume "x \<in> set xs"
  from for_loop_steps [OF assms(1) this] assms(2) show "ok x" by blast
qed

lemma pnl_step_fl_held: "pnl_step_fl ar t tp = Inr tp' \<Longrightarrow> pnl_ok t"
  by (cases "user t"; cases "amount t"; cases "prob_before t"; cases "outcome t")
     (auto simp: pnl_step_fl_def pnl_ok_def bind_res_def split: if_splits sum.splits)

lemma impact_step_fl_held: "impact_step_fl ar t ti = Inr ti' \<Longrightarrow> impact_ok t"
  by (cases "user t"; cases "prob_after t"; cases "prob_before t")
     (auto simp: impact_step_fl_def impact_ok_def bind_res_def Let_def
        split: if_splits sum.splits)

lemma estimate_pnl_fl_held: "estimate_pnl_fl ar ts cp = Inr rs \<Longrightarrow> list_all pnl_ok ts"
  unfolding estimate_pnl_fl_def bind_res_eq_Inr
  using for_loop_held [of "pnl_step_fl ar" ts "[]" _ pnl_ok] pnl_step_fl_held by blast

lemma analyze_market_impact_fl_held:
  "analyze_market_impact_fl ar ts = Inr rs \<Longrightarrow> list_all impact_ok ts"
  unfolding analyze_market_impact_fl_def bind_res_eq_Inr
  using for_loop_held [of "impact_step_fl ar" ts "[]" _ impact_ok] impact_step_fl_held by blast

text \<open>
  C7, amended. A record flagged as a redemption is skipped by every loop whatever else it
  lacks, and a record without the flag counts as a non-redemption. No analyzer skips another
  malformed record: an analyzer returns normally only if every non-redemption record holds
  the keys it subscripts (and, for the two analyzers that sort, every record holds
  \<open>timestamp\<close>), whatever the arithmetic of the interpreter does with the values; the loop
  body of each analyzer raises \<open>KeyError\<close> at a non-redemption record that lacks the first
  key it subscripts. Nothing is said of a record that holds every key: an analyzer may
  still raise on its values.
\<close>

theorem missing_field_aborts:
  "((\<exists>rs. estimate_pnl_fl ar ts cp' = Inr rs) \<longrightarrow> list_all pnl_ok ts) \<and>
   ((\<exists>rs. analyze_market_impact_fl ar ts = Inr rs) \<longrightarrow> list_all impact_ok ts) \<and>
   ((\<exists>rs. estimate_pnl ts cp = Inr rs) \<longrightarrow> list_all pnl_ok ts) \<and>
   ((\<exists>r. analyze_timing ts = Inr r) \<longrightarrow> list_all timing_ok ts) \<and>
   ((\<exists>rs. analyze_position_changes ts = Inr rs) \<longrightarrow> list_all history_ok ts) \<and>
   ((\<exists>rs. analyze_market_impact ts = Inr rs) \<longrightarrow> list_all impact_ok ts) \<and>
   ((\<exists>rs. classify_traders ts pd = Inr rs) \<longrightarrow> list_all stats_ok ts) \<and>
   (is_red t \<longrightarrow>
      pnl_step_fl ar t tpf = Inr tpf \<and> impact_step_fl ar t tif = Inr tif \<and>
      pnl_step t tp = Inr tp \<and> timing_step q1 q3 (i, t) tt = Inr tt \<and>
      history_step t th = Inr th \<and> impact_step t ti = Inr ti \<and> stats_step t st = Inr st) \<and>
   (is_redemption t = None \<longrightarrow> \<not> is_red t) \<and>
   (\<not> is_red t \<and> user t = None \<longrightarrow>
      pnl_step_fl ar t tpf = Inl (KeyError ''user'') \<and>
      pnl_step t tp = Inl (KeyError ''user'') \<and>
      timing_step q1 q3 (i, t) tt = Inl (KeyError ''user'') \<and>
      history_step t th = Inl (KeyError ''user'') \<and>
      stats_step t st = Inl (KeyError ''user'')) \<and>
   (\<not> is_red t \<and> prob_after t = None \<longrightarrow>
      impact_step_fl ar t tif = Inl (KeyError ''prob_after'') \<and>
      impact_step t ti = Inl (KeyError ''prob_after''))"
proof -
  have r: "is_red t \<longrightarrow>
      pnl_step_fl ar t tpf = Inr tpf \<and> impact_step_fl ar t tif = Inr tif \<and>
      pnl_step t tp = Inr tp \<and> timing_step q1 q3 (i, t) tt = Inr tt \<and>
      history_step t th = Inr th \<and> impact_step t ti = Inr ti \<and> stats_step t st = Inr st"
    by (simp add: pnl_step_def timing_step_def history_step_def impact_step_def stats_step_def
        pnl_step_fl_def impact_step_fl_def)
  have n: "is_redemption t = None \<longrightarrow> \<not> is_red t"
    by (simp add: is_red_def)
  have u: "\<not> is_red t \<and> user t = None \<longrightarrow>
      pnl_step_fl ar t tpf = Inl (KeyError ''user'') \<and>
      pnl_step t tp = Inl (KeyError ''user'') \<and>
      timing_step q1 q3 (i, t) tt = Inl (KeyError ''user'') \<and>
      history_step t th = Inl (KeyError ''user'') \<and>
      stats_step t st = Inl (KeyError ''user'')"
    by (simp add: pnl_step_def timing_step_def history_step_def stats_step_def
        pnl_step_fl_def)
  have p: "\<not> is_red t \<and> prob_after t = None \<longrightarrow>
      impact_step_fl ar t tif = Inl (KeyError ''prob_after'') \<and>
      impact_step t ti = Inl (KeyError ''prob_after'')"
    by (simp add: impact_step_def impact_step_fl_def)
  show ?thesis
    using estimate_pnl_Inr_iff [of ts cp] analyze_timing_Inr_iff [of ts]
      analyze_position_changes_Inr_iff [of ts] analyze_market_impact_Inr_iff [of ts]
      classify_traders_Inr_iff [of ts pd] estimate_pnl_fl_held [of ar ts cp']
      analyze_market_impact_fl_held [of ar ts] r n u p
    by blast
qed

theorem missing_field_aborts_witness:
  "(\<exists>rs. estimate_pnl_fl exact_arith two_traders (1 / 2) = Inr rs) \<and>
   list_all pnl_ok two_traders \<and>
   (\<exists>rs. classify_traders two_traders two_traders_pnl = Inr rs) \<and>
   list_all stats_ok two_traders \<and>
   is_red bare_redemption \<and>
   pnl_step_fl exact_arith bare_redemption [] = Inr [] \<and>
   stats_step bare_redemption [] = Inr [] \<and>
   \<not> is_red (hd missing_user_market) \<and> user (hd missing_user_market) = None \<and>
   pnl_step_fl exact_arith (hd missing_user_market) [] = Inl (KeyError ''user'') \<and>
   timing_step 0 0 (0, hd missing_user_market) [] = Inl (KeyError ''user'')"
proof -
  have a: "\<exists>rs. estimate_pnl_fl exact_arith two_traders (1 / 2) = Inr rs"
    using two_traders_estimate_fl by blast
  have b: "\<exists>rs. classify_traders two_traders two_traders_pnl = Inr rs"
    using two_traders_classify by blast
  have c: "is_red bare_redemption"
    by (simp add: bare_redemption_def is_red_def)
  have d: "\<not> is_red (hd missing_user_market) \<and> user (hd missing_user_market) = None"
    by (simp add: missing_user_market_def mk_trade_def is_red_def)
  note i1 = missing_field_aborts [where ar = exact_arith and ts = two_traders and cp' = "1 / 2"
      and cp = "1 / 2" and pd = two_traders_pnl and t = bare_redemption and tpf = "[]" and tif = "[]"
      and tp = "[]" and ?q1.0 = 0 and ?q3.0 = 0 and i = 0
      and tt = "[]" and th = "[]" and ti = "[]" and st = "[]"]
  from i1 have "(\<exists>rs. estimate_pnl_fl exact_arith two_traders (1 / 2) = Inr rs) \<longrightarrow>
      list_all pnl_ok two_traders"
    by (rule conjunct1)
  with a have e: "list_all pnl_ok two_traders" by simp
  from i1 have "(\<exists>rs. classify_traders two_traders two_traders_pnl = Inr rs) \<longrightarrow> list_all stats_ok two_traders"
    by (elim conjE) assumption
  with b have f: "list_all stats_ok two_traders" by simp
  from i1 have "is_red bare_redemption \<longrightarrow>
      pnl_step_fl exact_arith bare_redemption [] = Inr [] \<and>
      impact_step_fl exact_arith bare_redemption [] = Inr [] \<and>
      pnl_step bare_redemption [] = Inr [] \<and> timing_step 0 0 (0, bare_redemption) [] = Inr [] \<and>
      history_step bare_redemption [] = Inr [] \<and> impact_step bare_redemption [] = Inr [] \<and>
      stats_step bare_redemption [] = Inr []"
    by (elim conjE) assumption
  with c have g: "pnl_step_fl exact_arith bare_redemption [] = Inr []"
    "stats_step bare_redemption [] = Inr []"
    by simp_all
  note i2 = missing_field_aborts [where ar = exact_arith and ts = two_traders and cp' = "1 / 2"
      and cp = "1 / 2" and pd = two_traders_pnl and t = "hd missing_user_market" and tpf = "[]"
      and tif = "[]" and tp = "[]" and ?q1.0 = 0 and ?q3.0 = 0 and i = 0
      and tt = "[]" and th = "[]" and ti = "[]" and st = "[]"]
  from i2 have "\<not> is_red (hd missing_user_market) \<and> user (hd missing_user_market) = None \<longrightarrow>
      pnl_step_fl exact_arith (hd missing_user_market) [] = Inl (KeyError ''user'') \<and>
      pnl_step (hd missing_user_market) [] = Inl (KeyError ''user'') \<and>
      timing_step 0 0 (0, hd missing_user_market) [] = Inl (KeyError ''user'') \<and>
      history_step (hd missing_user_market) [] = Inl (KeyError ''user'') \<and>
      stats_step (hd missing_user_market) [] = Inl (KeyError ''user'')"
    by (elim conjE) assumption
  with d have h: "pnl_step_fl exact_arith (hd missing_user_market) [] = Inl (KeyError ''user'')"
    "timing_step 0 0 (0, hd missing_user_market) [] = Inl (KeyError ''user'')"
    by simp_all
  from a b c d e f g h show ?thesis by simp
qed

end
